theory Spec2Isabelle
  imports Complex_Main
begin

section \<open>The MCP client of \<^verbatim>\<open>utils/mcp_client.py\<close>\<close>

text \<open>
  The client starts a child process, exchanges one JSON message per line over the
  child's standard streams, and pairs a reply with its request by the numeric \<^verbatim>\<open>id\<close>.
  The embedding below follows \<^verbatim>\<open>class MCPClient\<close> method by method. The child process
  is the environment: the model supplies what each \<^verbatim>\<open>readline\<close> on its standard
  output will do, whether writing to its standard input fails, and how it reacts to
  \<^verbatim>\<open>terminate\<close>.
\<close>

subsection \<open>Python values\<close>

text \<open>
  A Python float as the client can observe it: its exact value when it is finite
  (negative zero is the value 0), or one of the three values that are not numbers of
  JSON and that \<^verbatim>\<open>json.loads\<close> produces for \<^verbatim>\<open>Infinity\<close>, \<^verbatim>\<open>-Infinity\<close> and \<^verbatim>\<open>NaN\<close>.
\<close>

datatype pyfloat = FNum rat | FInf | FNegInf | FNaN

text \<open>
  What \<^verbatim>\<open>json.loads\<close> produces: \<^verbatim>\<open>None\<close>, booleans, integers, floats, strings, lists
  and dictionaries. A dictionary is an association list read with \<open>map_of\<close>. A Python
  \<^verbatim>\<open>str\<close> is a \<open>string\<close> whose characters are code points below 256.
\<close>

datatype json =
    JNull
  | JBool bool
  | JInt int
  | JFloat pyfloat
  | JStr string
  | JList "json list"
  | JObj "(string \<times> json) list"

text \<open>
  The exceptions of the module, by the text the source raises them with, and the
  built-in exceptions its expressions can raise.
\<close>

datatype error =
    NotInitialized        \<comment> \<open>\<^verbatim>\<open>MCP client not initialized\<close>\<close>
  | ProcessNotRunning     \<comment> \<open>\<^verbatim>\<open>MCP process not running\<close>\<close>
  | SendFailed error      \<comment> \<open>\<^verbatim>\<open>Failed to send MCP call: ...\<close>\<close>
  | ResponseTimeout       \<comment> \<open>\<^verbatim>\<open>Timeout waiting for MCP response\<close>\<close>
  | ToolError json        \<comment> \<open>\<^verbatim>\<open>MCP tool error: ...\<close>\<close>
  | InvalidResponse       \<comment> \<open>\<^verbatim>\<open>Invalid MCP response: missing result\<close>\<close>
  | InitError json        \<comment> \<open>\<^verbatim>\<open>MCP initialization error: ...\<close>\<close>
  | ToolsListTimeout      \<comment> \<open>\<^verbatim>\<open>Timeout waiting for tools list\<close>\<close>
  | InitFailed error      \<comment> \<open>\<^verbatim>\<open>Failed to initialize MCP client: ...\<close>\<close>
  | OSError               \<comment> \<open>\<^verbatim>\<open>subprocess.Popen\<close> could not start the executable\<close>
  | BrokenPipeError       \<comment> \<open>writing to the child's standard input failed\<close>
  | AttributeError        \<comment> \<open>\<^verbatim>\<open>.get\<close> on a value that is not a dictionary\<close>
  | TypeError             \<comment> \<open>\<^verbatim>\<open>len\<close> of an unsized value, \<^verbatim>\<open>join\<close> of a non-string\<close>

text \<open>
  A call returns a value, raises, or never returns: \<^verbatim>\<open>readline\<close> on a pipe blocks
  until the child writes a line or closes the pipe.
\<close>

datatype 'a outcome = Returns 'a | Raises error | Hangs

text \<open>Truth value of a Python object, as \<^verbatim>\<open>if msg:\<close> and \<^verbatim>\<open>not response\<close> test it.\<close>

fun truthy :: "json \<Rightarrow> bool" where
  "truthy JNull = False"
| "truthy (JBool b) = b"
| "truthy (JInt n) = (n \<noteq> 0)"
| "truthy (JFloat x) = (x \<noteq> FNum 0)"
| "truthy (JStr s) = (s \<noteq> [])"
| "truthy (JList xs) = (xs \<noteq> [])"
| "truthy (JObj kv) = (kv \<noteq> [])"

text \<open>
  \<^verbatim>\<open>v == n\<close> for an integer \<open>n\<close>: booleans are the integers 0 and 1 in Python, and a
  float equals an integer when its value is that integer.
\<close>

fun py_eq_int :: "json \<Rightarrow> int \<Rightarrow> bool" where
  "py_eq_int (JInt m) n = (m = n)"
| "py_eq_int (JBool b) n = ((if b then 1 else 0) = n)"
| "py_eq_int (JFloat x) n = (x = FNum (of_int n))"
| "py_eq_int _ n = False"

text \<open>\<^verbatim>\<open>v.get(key)\<close> and \<^verbatim>\<open>v.get(key, default)\<close>: only a dictionary has the method.\<close>

fun py_get :: "json \<Rightarrow> string \<Rightarrow> json \<Rightarrow> error + json" where
  "py_get (JObj kv) key dflt = Inr (case map_of kv key of None \<Rightarrow> dflt | Some v \<Rightarrow> v)"
| "py_get _ key dflt = Inl AttributeError"

text \<open>\<^verbatim>\<open>key in d\<close> for a dictionary \<open>d\<close>.\<close>

definition has_key :: "(string \<times> json) list \<Rightarrow> string \<Rightarrow> bool" where
  "has_key kv key = (map_of kv key \<noteq> None)"

text \<open>\<^verbatim>\<open>len(v)\<close>: \<^verbatim>\<open>None\<close>, booleans and numbers have no length.\<close>

fun py_len :: "json \<Rightarrow> error + nat" where
  "py_len (JStr s) = Inr (length s)"
| "py_len (JList xs) = Inr (length xs)"
| "py_len (JObj kv) = Inr (length kv)"
| "py_len _ = Inl TypeError"

text \<open>
  \<^verbatim>\<open>sep.join(items)\<close>: the items joined with the separator between them;
  \<^verbatim>\<open>TypeError\<close> when an item is not a string.
\<close>

fun py_join :: "string \<Rightarrow> json list \<Rightarrow> error + string" where
  "py_join sep [] = Inr []"
| "py_join sep [JStr s] = Inr s"
| "py_join sep (JStr s # x # xs) =
     (case py_join sep (x # xs) of Inl e \<Rightarrow> Inl e | Inr r \<Rightarrow> Inr (s @ sep @ r))"
| "py_join sep (_ # xs) = Inl TypeError"

text \<open>
  \<^verbatim>\<open>line.strip()\<close>: leading and trailing white space removed. The white space of
  \<^verbatim>\<open>str.isspace\<close> below code point 256.
\<close>

definition is_space :: "char \<Rightarrow> bool" where
  "is_space ch = (of_char ch \<in> {9, 10, 11, 12, 13, 28, 29, 30, 31, 32, 133, 160 :: nat})"

definition strip :: "string \<Rightarrow> string" where
  "strip s = rev (dropWhile is_space (rev (dropWhile is_space s)))"

text \<open>
  The two library functions the client calls on received data are parameters of the
  model: \<open>json_loads\<close> is \<^verbatim>\<open>json.loads\<close>, with \<open>None\<close> where it raises
  \<^verbatim>\<open>JSONDecodeError\<close>, and \<open>py_str\<close> is \<^verbatim>\<open>str\<close> on a value that is not a string.
\<close>

record python =
  json_loads :: "string \<Rightarrow> json option"
  py_str :: "json \<Rightarrow> string"

subsection \<open>The child process and the client object\<close>

text \<open>
  One \<^verbatim>\<open>readline\<close> on the child's standard output: it returns a line (the empty
  string at end of file), raises, or blocks for ever because the child is alive and
  silent. Once the list of events is used up the stream is at end of file.
\<close>

datatype read_event = Line string | ReadError | Blocks

text \<open>What the child does when \<^verbatim>\<open>cleanup\<close> calls \<^verbatim>\<open>terminate\<close> and \<^verbatim>\<open>wait(timeout=5)\<close>.\<close>

datatype shutdown =
    ExitsOnTerminate     \<comment> \<open>\<^verbatim>\<open>wait\<close> returns within the grace period\<close>
  | IgnoresTerminate     \<comment> \<open>\<^verbatim>\<open>wait\<close> raises \<^verbatim>\<open>TimeoutExpired\<close>\<close>
  | TerminateRaises      \<comment> \<open>\<^verbatim>\<open>terminate\<close> raises another exception\<close>
  | WaitRaises           \<comment> \<open>\<^verbatim>\<open>wait\<close> raises another exception\<close>

record proc =
  inbound :: "read_event list"
  stdin_broken :: bool
  on_terminate :: shutdown

text \<open>What the client has done to child processes, in order.\<close>

datatype effect = Spawn | Write json | Terminate | Kill

text \<open>
  The fields of \<^verbatim>\<open>MCPClient\<close>; \<open>os_trace\<close> is not a field of the object, it records
  the effects of the calls made so far.
\<close>

record mcp_client =
  server_path :: string
  client_name :: string
  client_version :: string
  process :: "proc option"
  rpc_id_counter :: int
  os_trace :: "effect list"

text \<open>\<^verbatim>\<open>__init__\<close>\<close>

definition new_client :: "string \<Rightarrow> string \<Rightarrow> string \<Rightarrow> mcp_client" where
  "new_client path name version =
     \<lparr> server_path = path, client_name = name, client_version = version,
       process = None, rpc_id_counter = 100, os_trace = [] \<rparr>"

subsection \<open>Transport\<close>

text \<open>\<^verbatim>\<open>_send_message\<close>\<close>

definition send_message :: "mcp_client \<Rightarrow> json \<Rightarrow> error + mcp_client" where
  "send_message c message =
     (case process c of
        None \<Rightarrow> Inl ProcessNotRunning
      | Some p \<Rightarrow>
          if stdin_broken p then Inl BrokenPipeError
          else Inr (c\<lparr>os_trace := os_trace c @ [Write message]\<rparr>))"

text \<open>
  \<^verbatim>\<open>_read_json_line\<close>: \<^verbatim>\<open>None\<close> is \<open>JNull\<close>. Every exception is caught inside the
  method, so it returns or blocks.
\<close>

definition read_json_line :: "python \<Rightarrow> mcp_client \<Rightarrow> json outcome \<times> mcp_client" where
  "read_json_line py c =
     (case process c of
        None \<Rightarrow> (Returns JNull, c)
      | Some p \<Rightarrow>
          (case inbound p of
             [] \<Rightarrow> (Returns JNull, c)
           | Blocks # rest \<Rightarrow> (Hangs, c)
           | ReadError # rest \<Rightarrow> (Returns JNull, c\<lparr>process := Some (p\<lparr>inbound := rest\<rparr>)\<rparr>)
           | Line line # rest \<Rightarrow>
               (let c' = c\<lparr>process := Some (p\<lparr>inbound := rest\<rparr>)\<rparr> in
                if line = [] then (Returns JNull, c')
                else if strip line = [] then (Returns JNull, c')
                else (case json_loads py (strip line) of
                        None \<Rightarrow> (Returns JNull, c')
                      | Some v \<Rightarrow> (Returns v, c')))))"

subsection \<open>Response normalizer\<close>

text \<open>The value the loop over \<^verbatim>\<open>content\<close> appends for one item.\<close>

fun item_text :: "python \<Rightarrow> json \<Rightarrow> json" where
  "item_text py (JObj kv) =
     (case map_of kv ''text'' of
        Some t \<Rightarrow> t
      | None \<Rightarrow>
          (case map_of kv ''raw'' of
             Some (JObj rkv) \<Rightarrow>
               (case map_of rkv ''text'' of
                  Some t \<Rightarrow> t
                | None \<Rightarrow> JStr (py_str py (JObj kv)))
           | _ \<Rightarrow> JStr (py_str py (JObj kv))))"
| "item_text py (JStr s) = JStr s"
| "item_text py item = JStr (py_str py item)"

text \<open>The \<^verbatim>\<open>for\<close> loop: \<^verbatim>\<open>combined_text\<close> grows by one entry per item.\<close>

fun combine :: "python \<Rightarrow> json list \<Rightarrow> json list \<Rightarrow> json list" where
  "combine py combined_text [] = combined_text"
| "combine py combined_text (item # items) =
     combine py (combined_text @ [item_text py item]) items"

definition blank_line :: string where
  "blank_line = [CHR 0x0A, CHR 0x0A]"

text \<open>Lines 228 to 257 of \<^verbatim>\<open>call_tool\<close>: the value returned for a \<^verbatim>\<open>result\<close>.\<close>

definition normalize :: "python \<Rightarrow> json \<Rightarrow> json outcome" where
  "normalize py result =
     (case result of
        JObj kv \<Rightarrow>
          (case map_of kv ''content'' of
             None \<Rightarrow> Returns result
           | Some content \<Rightarrow>
               (case py_len content of
                  Inl e \<Rightarrow> Raises e
                | Inr n \<Rightarrow>
                    (case content of
                       JList items \<Rightarrow>
                         if length items > 0 then
                           (case py_join blank_line (combine py [] items) of
                              Inl e \<Rightarrow> Raises e
                            | Inr final_result \<Rightarrow> Returns (JStr final_result))
                         else Returns content
                     | _ \<Rightarrow> Returns content)))
      | _ \<Rightarrow> Returns result)"

text \<open>Lines 213 to 257 of \<^verbatim>\<open>call_tool\<close>: what is done with the matched response.\<close>

definition handle_response :: "python \<Rightarrow> json \<Rightarrow> json outcome" where
  "handle_response py response =
     (case response of
        JObj kv \<Rightarrow>
          (case map_of kv ''error'' of
             Some err \<Rightarrow>
               (case py_get err ''message'' (JStr ''Unknown MCP error'') of
                  Inl e \<Rightarrow> Raises e
                | Inr error_msg \<Rightarrow> Raises (ToolError error_msg))
           | None \<Rightarrow>
               (case map_of kv ''result'' of
                  None \<Rightarrow> Raises InvalidResponse
                | Some result \<Rightarrow> normalize py result))
      | _ \<Rightarrow> Raises TypeError)"

text \<open>
  The last case is never reached from \<^verbatim>\<open>call_tool\<close>: its wait loop hands over a message
  only after \<^verbatim>\<open>msg.get\<close> succeeded on it, so the response is a dictionary.
\<close>

subsection \<open>Request/response correlator\<close>

definition call_max_attempts :: nat where
  "call_max_attempts = 50"

text \<open>
  The \<^verbatim>\<open>while attempts < max_attempts\<close> loop of \<^verbatim>\<open>call_tool\<close>. It returns the value
  of \<^verbatim>\<open>response\<close> when the loop is left: the matching message after \<^verbatim>\<open>break\<close>, or
  \<^verbatim>\<open>None\<close> when the attempts are used up.
\<close>

function wait_response :: "python \<Rightarrow> int \<Rightarrow> nat \<Rightarrow> mcp_client \<Rightarrow> json outcome \<times> mcp_client" where
  "wait_response py call_id attempts c =
     (if attempts < call_max_attempts then
        (case read_json_line py c of
           (Returns msg, c') \<Rightarrow>
             if \<not> truthy msg then wait_response py call_id (attempts + 1) c'
             else (case py_get msg ''id'' JNull of
                     Inl e \<Rightarrow> (Raises e, c')
                   | Inr v \<Rightarrow>
                       if py_eq_int v call_id then (Returns msg, c')
                       else wait_response py call_id (attempts + 1) c')
         | (Raises e, c') \<Rightarrow> (Raises e, c')
         | (Hangs, c') \<Rightarrow> (Hangs, c'))
      else (Returns JNull, c))"
  by pat_completeness auto
termination
  by (relation "measure (\<lambda>(py, call_id, attempts, c). call_max_attempts - attempts)") auto

text \<open>The \<^verbatim>\<open>rpc_call\<close> dictionary of \<^verbatim>\<open>call_tool\<close>.\<close>

definition rpc_call :: "int \<Rightarrow> string \<Rightarrow> json \<Rightarrow> json" where
  "rpc_call call_id tool_name arguments =
     JObj [(''jsonrpc'', JStr ''2.0''), (''id'', JInt call_id),
           (''method'', JStr ''tools/call''),
           (''params'', JObj [(''name'', JStr tool_name), (''arguments'', arguments)])]"

text \<open>
  \<^verbatim>\<open>call_tool\<close>. Besides the outcome and the client afterwards it gives the value of
  the local \<^verbatim>\<open>call_id\<close>, when the call got as far as allocating one.
\<close>

definition call_tool ::
  "python \<Rightarrow> mcp_client \<Rightarrow> string \<Rightarrow> json \<Rightarrow> json outcome \<times> int option \<times> mcp_client" where
  "call_tool py c tool_name arguments =
     (if process c = None then (Raises NotInitialized, None, c)
      else
        (let c1 = c\<lparr>rpc_id_counter := rpc_id_counter c + 1\<rparr>;
             call_id = rpc_id_counter c1;
             request = rpc_call call_id tool_name arguments
         in case send_message c1 request of
              Inl e \<Rightarrow> (Raises (SendFailed e), Some call_id, c1)
            | Inr c2 \<Rightarrow>
                (case wait_response py call_id 0 c2 of
                   (Returns response, c3) \<Rightarrow>
                     if \<not> truthy response then (Raises ResponseTimeout, Some call_id, c3)
                     else (handle_response py response, Some call_id, c3)
                 | (Raises e, c3) \<Rightarrow> (Raises e, Some call_id, c3)
                 | (Hangs, c3) \<Rightarrow> (Hangs, Some call_id, c3))))"

subsection \<open>Handshake\<close>

definition init_messages :: "mcp_client \<Rightarrow> json list" where
  "init_messages c =
     [JObj [(''jsonrpc'', JStr ''2.0''), (''id'', JInt 0), (''method'', JStr ''initialize''),
            (''params'',
               JObj [(''protocolVersion'', JStr ''2024-11-05''),
                     (''capabilities'',
                        JObj [(''sampling'', JObj []),
                              (''roots'', JObj [(''listChanged'', JBool True)])]),
                     (''clientInfo'',
                        JObj [(''name'', JStr (client_name c)),
                              (''version'', JStr (client_version c))])])],
      JObj [(''jsonrpc'', JStr ''2.0''), (''method'', JStr ''notifications/initialized'')],
      JObj [(''jsonrpc'', JStr ''2.0''), (''id'', JInt 1), (''method'', JStr ''tools/list''),
            (''params'', JObj [])]]"

text \<open>The loop sending the initialization messages one by one.\<close>

fun send_all :: "mcp_client \<Rightarrow> json list \<Rightarrow> error option \<times> mcp_client" where
  "send_all c [] = (None, c)"
| "send_all c (msg # msgs) =
     (case send_message c msg of
        Inl e \<Rightarrow> (Some e, c)
      | Inr c' \<Rightarrow> send_all c' msgs)"

definition init_max_attempts :: nat where
  "init_max_attempts = 20"

text \<open>
  The loop waiting for the tools list. It returns the values of \<^verbatim>\<open>tools\<close> and
  \<^verbatim>\<open>attempts\<close> when the loop is left.
\<close>

function wait_tools :: "python \<Rightarrow> nat \<Rightarrow> mcp_client \<Rightarrow> (json \<times> nat) outcome \<times> mcp_client" where
  "wait_tools py attempts c =
     (if attempts < init_max_attempts then
        (case read_json_line py c of
           (Returns msg, c') \<Rightarrow>
             if truthy msg then
               (case msg of
                  JObj kv \<Rightarrow>
                    (case py_get msg ''id'' JNull of
                       Inl e \<Rightarrow> (Raises e, c')
                     | Inr v \<Rightarrow>
                         if py_eq_int v 1 \<and> has_key kv ''result'' then
                           (case py_get (the (map_of kv ''result'')) ''tools'' (JList []) of
                              Inl e \<Rightarrow> (Raises e, c')
                            | Inr tools \<Rightarrow>
                                (case py_len tools of
                                   Inl e \<Rightarrow> (Raises e, c')
                                 | Inr n \<Rightarrow> (Returns (tools, attempts), c')))
                         else if py_eq_int v 1 \<and> has_key kv ''error'' then
                           (Raises (InitError (the (map_of kv ''error''))), c')
                         else wait_tools py (attempts + 1) c')
                | _ \<Rightarrow> (Raises AttributeError, c'))
             else wait_tools py (attempts + 1) c'
         | (Raises e, c') \<Rightarrow> (Raises e, c')
         | (Hangs, c') \<Rightarrow> (Hangs, c'))
      else (Returns (JList [], attempts), c))"
  by pat_completeness auto
termination
  by (relation "measure (\<lambda>(py, attempts, c). init_max_attempts - attempts)") auto

text \<open>
  The \<^verbatim>\<open>try\<close> block of \<^verbatim>\<open>initialize\<close>. \<open>spawned\<close> is what \<^verbatim>\<open>subprocess.Popen\<close> gives:
  the new child process, or \<open>None\<close> when it raises.
\<close>

definition initialize_try :: "python \<Rightarrow> proc option \<Rightarrow> mcp_client \<Rightarrow> json outcome \<times> mcp_client" where
  "initialize_try py spawned c =
     (case spawned of
        None \<Rightarrow> (Raises OSError, c)
      | Some p \<Rightarrow>
          (let c1 = c\<lparr>process := Some p, os_trace := os_trace c @ [Spawn]\<rparr> in
           case send_all c1 (init_messages c1) of
             (Some e, c2) \<Rightarrow> (Raises e, c2)
           | (None, c2) \<Rightarrow>
               (case wait_tools py 0 c2 of
                  (Returns (tools, attempts), c3) \<Rightarrow>
                    if \<not> truthy tools \<and> attempts \<ge> init_max_attempts
                    then (Raises ToolsListTimeout, c3)
                    else (Returns tools, c3)
                | (Raises e, c3) \<Rightarrow> (Raises e, c3)
                | (Hangs, c3) \<Rightarrow> (Hangs, c3))))"

text \<open>\<^verbatim>\<open>initialize\<close>: the \<^verbatim>\<open>try\<close> block under its \<^verbatim>\<open>except Exception\<close> handler.\<close>

definition initialize :: "python \<Rightarrow> proc option \<Rightarrow> mcp_client \<Rightarrow> json outcome \<times> mcp_client" where
  "initialize py spawned c =
     (case initialize_try py spawned c of
        (Raises e, c') \<Rightarrow>
          (Raises (InitFailed e),
           (case process c' of
              None \<Rightarrow> c'
            | Some p \<Rightarrow> c'\<lparr>process := None, os_trace := os_trace c' @ [Kill]\<rparr>))
      | r \<Rightarrow> r)"

subsection \<open>Lifecycle\<close>

text \<open>
  \<^verbatim>\<open>cleanup\<close>: \<^verbatim>\<open>terminate\<close>, \<^verbatim>\<open>wait(timeout=5)\<close>, \<^verbatim>\<open>kill\<close> after \<^verbatim>\<open>TimeoutExpired\<close>; any
  other exception is caught and logged, and \<^verbatim>\<open>finally\<close> clears the handle. Here and
  in \<^verbatim>\<open>initialize\<close>, \<^verbatim>\<open>kill\<close> itself does not raise.
\<close>

definition cleanup :: "mcp_client \<Rightarrow> unit outcome \<times> mcp_client" where
  "cleanup c =
     (case process c of
        None \<Rightarrow> (Returns (), c)
      | Some p \<Rightarrow>
          (let done = (case on_terminate p of
                         ExitsOnTerminate \<Rightarrow> [Terminate]
                       | IgnoresTerminate \<Rightarrow> [Terminate, Kill]
                       | TerminateRaises \<Rightarrow> []
                       | WaitRaises \<Rightarrow> [Terminate])
           in (Returns (), c\<lparr>process := None, os_trace := os_trace c @ done\<rparr>)))"

subsection \<open>A client's life\<close>

text \<open>
  What happens to one client object: the three public methods, and in between the
  child process changing (it writes more lines, its pipe breaks).
\<close>

datatype op =
    Initialize "proc option"
  | CallTool string json
  | Cleanup
  | Server "proc \<Rightarrow> proc"

text \<open>
  The identifiers allocated by the \<^verbatim>\<open>call_tool\<close> invocations of a sequence of
  operations, in order. A method that never returns ends the sequence.
\<close>

fun allocated_ids :: "python \<Rightarrow> mcp_client \<Rightarrow> op list \<Rightarrow> int list" where
  "allocated_ids py c [] = []"
| "allocated_ids py c (Initialize spawned # ops) =
     (case initialize py spawned c of
        (Hangs, c') \<Rightarrow> []
      | (r, c') \<Rightarrow> allocated_ids py c' ops)"
| "allocated_ids py c (CallTool tool_name arguments # ops) =
     (case call_tool py c tool_name arguments of
        (r, call_id, c') \<Rightarrow>
          (case call_id of None \<Rightarrow> [] | Some i \<Rightarrow> [i]) @
          (if r = Hangs then [] else allocated_ids py c' ops))"
| "allocated_ids py c (Cleanup # ops) =
     (case cleanup c of
        (Hangs, c') \<Rightarrow> []
      | (r, c') \<Rightarrow> allocated_ids py c' ops)"
| "allocated_ids py c (Server f # ops) =
     allocated_ids py (c\<lparr>process := map_option f (process c)\<rparr>) ops"

text \<open>
  A finite excerpt of the two library functions, agreeing with Python on the listed
  arguments; the examples below are evaluated with it.
\<close>

definition example_lines :: "(string \<times> json) list" where
  \<open>example_lines =
     [(''{}'', JObj []),
      (''{"id":7}'', JObj [(''id'', JInt 7)]),
      (''{"method":"log"}'', JObj [(''method'', JStr ''log'')]),
      (''{"id":101}'', JObj [(''id'', JInt 101)]),
      (''{"id":101,"result":"ok"}'', JObj [(''id'', JInt 101), (''result'', JStr ''ok'')]),
      (''{"id":101,"error":{"message":"boom"},"result":"ok"}'',
         JObj [(''id'', JInt 101), (''error'', JObj [(''message'', JStr ''boom'')]),
               (''result'', JStr ''ok'')]),
      (''{"id":101,"result":{"content":[{"text":5}]}}'',
         JObj [(''id'', JInt 101),
               (''result'', JObj [(''content'', JList [JObj [(''text'', JInt 5)]])])]),
      (''NaN'', JFloat FNaN),
      (''{"id":1,"result":{"tools":[]}}'',
         JObj [(''id'', JInt 1), (''result'', JObj [(''tools'', JList [])])]),
      (''{"id":1,"result":{"tools":["t"]}}'',
         JObj [(''id'', JInt 1), (''result'', JObj [(''tools'', JList [JStr ''t''])])]),
      (''{"id":1,"error":{"message":"bad version"}}'',
         JObj [(''id'', JInt 1), (''error'', JObj [(''message'', JStr ''bad version'')])])]\<close>

definition example_strs :: "(json \<times> string) list" where
  "example_strs =
     [(JNull, ''None''), (JBool True, ''True''), (JBool False, ''False''),
      (JInt 42, ''42''), (JList [], ''[]''), (JObj [], ''{}'')]"

definition example_python :: python where
  "example_python =
     \<lparr> json_loads = map_of example_lines,
       py_str = (\<lambda>v. case map_of example_strs v of None \<Rightarrow> [] | Some s \<Rightarrow> s) \<rparr>"

subsection \<open>What a line on the inbound stream is to a pending call\<close>

text \<open>\<^verbatim>\<open>msg.get("id")\<close> for a dictionary.\<close>

definition msg_id :: "(string \<times> json) list \<Rightarrow> json" where
  "msg_id kv = (case map_of kv ''id'' of None \<Rightarrow> JNull | Some v \<Rightarrow> v)"

text \<open>
  An unrelated message: a line carrying a JSON object whose \<^verbatim>\<open>id\<close> is absent or
  differs from the awaited identifier.
\<close>

fun unrelated :: "python \<Rightarrow> int \<Rightarrow> read_event \<Rightarrow> bool" where
  "unrelated py call_id (Line l) =
     (strip l \<noteq> [] \<and>
      (case json_loads py (strip l) of
         Some (JObj kv) \<Rightarrow> \<not> py_eq_int (msg_id kv) call_id
       | _ \<Rightarrow> False))"
| "unrelated py call_id _ = False"

text \<open>
  A line that \<^verbatim>\<open>json.loads\<close> rejects: it raises \<^verbatim>\<open>JSONDecodeError\<close> on the stripped text.
  Not every line that is not well-formed JSON is one: \<^verbatim>\<open>json.loads\<close> accepts \<^verbatim>\<open>NaN\<close>,
  \<^verbatim>\<open>Infinity\<close> and \<^verbatim>\<open>-Infinity\<close>, alone or inside a value, and gives floats for them.
\<close>

definition rejected :: "python \<Rightarrow> string \<Rightarrow> bool" where
  "rejected py l = (json_loads py (strip l) = None)"

text \<open>
  The response to a call: the message of a line carrying a JSON object whose \<^verbatim>\<open>id\<close>
  equals the awaited identifier.
\<close>

fun response_to :: "python \<Rightarrow> int \<Rightarrow> read_event \<Rightarrow> (string \<times> json) list option" where
  "response_to py call_id (Line l) =
     (if strip l = [] then None
      else (case json_loads py (strip l) of
              Some (JObj kv) \<Rightarrow> if py_eq_int (msg_id kv) call_id then Some kv else None
            | _ \<Rightarrow> None))"
| "response_to py call_id _ = None"

text \<open>
  Every read the wait loop passes over: a failed read, end of file, a blank or
  rejected line, a value that is false in Python, or an object with another \<^verbatim>\<open>id\<close>.
\<close>

fun skipped :: "python \<Rightarrow> int \<Rightarrow> read_event \<Rightarrow> bool" where
  "skipped py call_id (Line l) =
     (if strip l = [] then True
      else (case json_loads py (strip l) of
              None \<Rightarrow> True
            | Some (JObj kv) \<Rightarrow> kv = [] \<or> \<not> py_eq_int (msg_id kv) call_id
            | Some v \<Rightarrow> \<not> truthy v))"
| "skipped py call_id ReadError = True"
| "skipped py call_id Blocks = False"

subsection \<open>What a line on the inbound stream is to the handshake\<close>

text \<open>
  Every read the loop of \<^verbatim>\<open>initialize\<close> passes over: a failed read, end of file, a
  blank or rejected line, a value that is false in Python, or an object that is not a
  reply to \<^verbatim>\<open>tools/list\<close> (its \<^verbatim>\<open>id\<close> is not 1, or it has neither \<^verbatim>\<open>result\<close> nor
  \<^verbatim>\<open>error\<close>).
\<close>

fun init_skipped :: "python \<Rightarrow> read_event \<Rightarrow> bool" where
  "init_skipped py (Line l) =
     (if strip l = [] then True
      else (case json_loads py (strip l) of
              None \<Rightarrow> True
            | Some (JObj kv) \<Rightarrow>
                kv = [] \<or> \<not> py_eq_int (msg_id kv) 1 \<or>
                (\<not> has_key kv ''result'' \<and> \<not> has_key kv ''error'')
            | Some v \<Rightarrow> \<not> truthy v))"
| "init_skipped py ReadError = True"
| "init_skipped py Blocks = False"

text \<open>
  The server's error envelope for \<^verbatim>\<open>tools/list\<close>: a line carrying an object with
  \<^verbatim>\<open>id\<close> 1, no \<^verbatim>\<open>result\<close> and an \<^verbatim>\<open>error\<close>; the value is that \<^verbatim>\<open>error\<close>.
\<close>

fun init_error :: "python \<Rightarrow> read_event \<Rightarrow> json option" where
  "init_error py (Line l) =
     (if strip l = [] then None
      else (case json_loads py (strip l) of
              Some (JObj kv) \<Rightarrow>
                if py_eq_int (msg_id kv) 1 \<and> \<not> has_key kv ''result''
                then map_of kv ''error'' else None
            | _ \<Rightarrow> None))"
| "init_error py _ = None"

subsection \<open>The normalizer as the specification words it\<close>

text \<open>
  The text of a content item by priority: its \<^verbatim>\<open>text\<close> field if present, else the
  \<^verbatim>\<open>text\<close> field of its \<^verbatim>\<open>raw\<close> sub-object, else the item itself if it is a plain
  string, else a textual coercion of the item. The texts are joined by a blank line.
\<close>

fun field :: "json \<Rightarrow> string \<Rightarrow> json option" where
  "field (JObj kv) key = map_of kv key"
| "field _ key = None"

fun is_text :: "json \<Rightarrow> bool" where
  "is_text (JStr s) = True"
| "is_text _ = False"

fun the_text :: "json \<Rightarrow> string" where
  "the_text (JStr s) = s"
| "the_text _ = []"

definition spec_item_text :: "python \<Rightarrow> json \<Rightarrow> json" where
  "spec_item_text py item =
     (case field item ''text'' of
        Some t \<Rightarrow> t
      | None \<Rightarrow>
          (case Option.bind (field item ''raw'') (\<lambda>raw. field raw ''text'') of
             Some t \<Rightarrow> t
           | None \<Rightarrow> if is_text item then item else JStr (py_str py item)))"

fun join_with :: "string \<Rightarrow> string list \<Rightarrow> string" where
  "join_with sep [] = []"
| "join_with sep [s] = s"
| "join_with sep (s # t # ts) = s @ sep @ join_with sep (t # ts)"

text \<open>A client with a running child whose standard output will deliver the given reads.\<close>

definition example_client :: "read_event list \<Rightarrow> mcp_client" where
  "example_client evs =
     (new_client ''server'' ''assistant'' ''1.0'')
       \<lparr>process := Some \<lparr>inbound = evs, stdin_broken = False, on_terminate = ExitsOnTerminate\<rparr>\<rparr>"

text \<open>
  A server that answers \<^verbatim>\<open>tools/list\<close> and then the first tool call, and a life of
  a client with it: a call before initialization, calls that return, time out, fail to
  send and hang, and a cleanup in between.
\<close>

definition example_server :: proc where
  \<open>example_server =
     \<lparr>inbound = [Line ''{"id":1,"result":{"tools":["t"]}}'', Line ''{"id":101,"result":"ok"}''],
      stdin_broken = False, on_terminate = ExitsOnTerminate\<rparr>\<close>

definition example_life :: "op list" where
  "example_life =
     [CallTool ''foo'' (JObj []),
      Initialize (Some example_server),
      CallTool ''foo'' (JObj []),
      CallTool ''foo'' (JObj []),
      Server (\<lambda>p. p\<lparr>stdin_broken := True\<rparr>),
      CallTool ''foo'' (JObj []),
      Cleanup,
      CallTool ''foo'' (JObj []),
      Initialize (Some example_server),
      Server (\<lambda>p. p\<lparr>inbound := [Blocks]\<rparr>),
      CallTool ''foo'' (JObj []),
      CallTool ''foo'' (JObj [])]"

section \<open>The wait loop of \<^verbatim>\<open>call_tool\<close>\<close>

declare wait_response.simps [simp del]
declare wait_tools.simps [simp del]

lemma strip_Nil: "strip [] = []"
  by (simp add: strip_def)

lemma read_json_line_skipped:
  assumes "process c = Some p" "inbound p = ev # rest" "skipped py call_id ev"
  shows "\<exists>v. read_json_line py c = (Returns v, c\<lparr>process := Some (p\<lparr>inbound := rest\<rparr>)\<rparr>)
           \<and> (\<not> truthy v \<or> (\<exists>kv. v = JObj kv \<and> \<not> py_eq_int (msg_id kv) call_id))"
proof (cases ev)
  case (Line l)
  show ?thesis
  proof (cases "strip l = []")
    case True
    then show ?thesis using assms Line by (auto simp: read_json_line_def Let_def)
  next
    case False
    then have "l \<noteq> []" using strip_Nil by auto
    then show ?thesis using assms Line False
      by (auto simp: read_json_line_def Let_def split: option.splits json.splits)
  qed
next
  case ReadError
  then show ?thesis using assms by (simp add: read_json_line_def)
next
  case Blocks
  then show ?thesis using assms by simp
qed

lemma wait_response_step:
  assumes "attempts < call_max_attempts" "process c = Some p" "inbound p = ev # rest"
    "skipped py call_id ev"
  shows "wait_response py call_id attempts c =
         wait_response py call_id (Suc attempts) (c\<lparr>process := Some (p\<lparr>inbound := rest\<rparr>)\<rparr>)"
proof -
  obtain v where r: "read_json_line py c = (Returns v, c\<lparr>process := Some (p\<lparr>inbound := rest\<rparr>)\<rparr>)"
    and v: "\<not> truthy v \<or> (\<exists>kv. v = JObj kv \<and> \<not> py_eq_int (msg_id kv) call_id)"
    using read_json_line_skipped [OF assms(2,3,4)] by blast
  show ?thesis
    using assms(1) r v
    by (subst wait_response.simps) (auto simp: msg_id_def)
qed

lemma wait_response_skip:
  assumes "list_all (skipped py call_id) evs" "attempts + length evs \<le> call_max_attempts"
    "process c = Some p" "inbound p = evs @ rest"
  shows "wait_response py call_id attempts c =
         wait_response py call_id (attempts + length evs) (c\<lparr>process := Some (p\<lparr>inbound := rest\<rparr>)\<rparr>)"
  using assms
proof (induction evs arbitrary: attempts c p)
  case Nil
  then have "c\<lparr>process := Some (p\<lparr>inbound := rest\<rparr>)\<rparr> = c" by simp
  then show ?case by simp
next
  case (Cons ev evs)
  let ?c = "c\<lparr>process := Some (p\<lparr>inbound := evs @ rest\<rparr>)\<rparr>"
  have "wait_response py call_id attempts c = wait_response py call_id (Suc attempts) ?c"
    using Cons.prems by (intro wait_response_step) auto
  also have "\<dots> = wait_response py call_id (Suc attempts + length evs)
       (?c\<lparr>process := Some ((p\<lparr>inbound := evs @ rest\<rparr>)\<lparr>inbound := rest\<rparr>)\<rparr>)"
    using Cons.prems by (intro Cons.IH) auto
  finally show ?case by simp
qed

lemma wait_response_match:
  assumes "attempts < call_max_attempts" "process c = Some p" "inbound p = ev # rest"
    "response_to py call_id ev = Some kv"
  shows "wait_response py call_id attempts c =
         (Returns (JObj kv), c\<lparr>process := Some (p\<lparr>inbound := rest\<rparr>)\<rparr>) \<and> truthy (JObj kv)"
proof (cases ev)
  case (Line l)
  from assms(4) Line have s: "strip l \<noteq> []" by (auto split: if_splits)
  then have l: "l \<noteq> []" using strip_Nil by auto
  from assms(4) Line s have j: "json_loads py (strip l) = Some (JObj kv)"
    and e: "py_eq_int (msg_id kv) call_id"
    by (auto split: option.splits json.splits if_splits)
  from e have kv: "kv \<noteq> []" by (auto simp: msg_id_def)
  have r: "read_json_line py c = (Returns (JObj kv), c\<lparr>process := Some (p\<lparr>inbound := rest\<rparr>)\<rparr>)"
    using assms(2,3) Line s l j by (simp add: read_json_line_def Let_def)
  show ?thesis using assms(1) r e kv
    by (subst wait_response.simps) (auto simp: msg_id_def)
next
  case ReadError
  then show ?thesis using assms by simp
next
  case Blocks
  then show ?thesis using assms by simp
qed

lemma wait_response_exhausted:
  "call_max_attempts \<le> attempts \<Longrightarrow> wait_response py call_id attempts c = (Returns JNull, c)"
  by (subst wait_response.simps) simp

lemma wait_response_eof:
  assumes "process c = Some p" "inbound p = []"
  shows "wait_response py call_id attempts c = (Returns JNull, c)"
proof (induction "call_max_attempts - attempts" arbitrary: attempts)
  case 0
  then show ?case by (simp add: wait_response_exhausted)
next
  case (Suc k)
  then have lt: "attempts < call_max_attempts" by simp
  have r: "read_json_line py c = (Returns JNull, c)"
    using assms by (simp add: read_json_line_def)
  have "wait_response py call_id attempts c = wait_response py call_id (attempts + 1) c"
    using lt r by (subst wait_response.simps) simp
  also have "\<dots> = (Returns JNull, c)" using Suc by simp
  finally show ?case .
qed

lemma unrelated_skipped: "unrelated py call_id ev \<Longrightarrow> skipped py call_id ev"
  by (cases ev) (auto split: option.splits json.splits)

lemma call_tool_sent:
  assumes "process c = Some p" "\<not> stdin_broken p"
  shows "call_tool py c tool_name arguments =
     (case wait_response py (rpc_id_counter c + 1) 0
             (c\<lparr>rpc_id_counter := rpc_id_counter c + 1,
                os_trace := os_trace c @ [Write (rpc_call (rpc_id_counter c + 1) tool_name arguments)]\<rparr>) of
        (Returns response, c3) \<Rightarrow>
          if \<not> truthy response then (Raises ResponseTimeout, Some (rpc_id_counter c + 1), c3)
          else (handle_response py response, Some (rpc_id_counter c + 1), c3)
      | (Raises e, c3) \<Rightarrow> (Raises e, Some (rpc_id_counter c + 1), c3)
      | (Hangs, c3) \<Rightarrow> (Hangs, Some (rpc_id_counter c + 1), c3))"
  using assms by (auto simp: call_tool_def send_message_def Let_def split: prod.splits outcome.splits)

lemma call_tool_after_skipped:
  assumes "process c = Some p" "\<not> stdin_broken p"
    "inbound p = evs @ ev # rest"
    "list_all (skipped py (rpc_id_counter c + 1)) evs"
    "length evs < call_max_attempts"
    "response_to py (rpc_id_counter c + 1) ev = Some kv"
  shows "call_tool py c tool_name arguments =
     (handle_response py (JObj kv), Some (rpc_id_counter c + 1),
      c\<lparr>rpc_id_counter := rpc_id_counter c + 1,
        os_trace := os_trace c @ [Write (rpc_call (rpc_id_counter c + 1) tool_name arguments)],
        process := Some (p\<lparr>inbound := rest\<rparr>)\<rparr>)"
proof -
  let ?cid = "rpc_id_counter c + 1"
  let ?c2 = "c\<lparr>rpc_id_counter := ?cid,
                os_trace := os_trace c @ [Write (rpc_call ?cid tool_name arguments)]\<rparr>"
  have p2: "process ?c2 = Some p" using assms(1) by simp
  have m: "wait_response py ?cid (0 + length evs) (?c2\<lparr>process := Some (p\<lparr>inbound := ev # rest\<rparr>)\<rparr>) =
      (Returns (JObj kv),
        (?c2\<lparr>process := Some (p\<lparr>inbound := ev # rest\<rparr>)\<rparr>)
           \<lparr>process := Some ((p\<lparr>inbound := ev # rest\<rparr>)\<lparr>inbound := rest\<rparr>)\<rparr>) \<and> truthy (JObj kv)"
    using assms(5,6) by (intro wait_response_match) auto
  then have t: "truthy (JObj kv)" by simp
  have "wait_response py ?cid 0 ?c2 =
        wait_response py ?cid (0 + length evs) (?c2\<lparr>process := Some (p\<lparr>inbound := ev # rest\<rparr>)\<rparr>)"
    using assms(3,4,5) p2 by (intro wait_response_skip) auto
  also have "\<dots> = (Returns (JObj kv),
        (?c2\<lparr>process := Some (p\<lparr>inbound := ev # rest\<rparr>)\<rparr>)
           \<lparr>process := Some ((p\<lparr>inbound := ev # rest\<rparr>)\<lparr>inbound := rest\<rparr>)\<rparr>)"
    using m by simp
  finally have w: "wait_response py ?cid 0 ?c2 =
      (Returns (JObj kv), ?c2\<lparr>process := Some (p\<lparr>inbound := rest\<rparr>)\<rparr>)" by simp
  show ?thesis
    using t by (simp add: call_tool_sent [OF assms(1,2)] w)
qed

lemma handle_response_result:
  "map_of kv ''error'' = None \<Longrightarrow> map_of kv ''result'' = Some r \<Longrightarrow>
   handle_response py (JObj kv) = normalize py r"
  by (simp add: handle_response_def)

lemma list_all_replicate: "P x \<Longrightarrow> list_all P (replicate n x)"
  by (simp add: list_all_iff)

lemma ex_unrelated: \<open>unrelated example_python 101 (Line ''{"id":7}'')\<close>
  by (simp add: example_python_def example_lines_def strip_def is_space_def msg_id_def)

lemma ex_response: \<open>response_to example_python 101 (Line ''{"id":101,"result":"ok"}'')
    = Some [(''id'', JInt 101), (''result'', JStr ''ok'')]\<close>
  by (simp add: example_python_def example_lines_def strip_def is_space_def msg_id_def)

lemma ex_error_and_result:
  \<open>response_to example_python 101 (Line ''{"id":101,"error":{"message":"boom"},"result":"ok"}'')
    = Some [(''id'', JInt 101), (''error'', JObj [(''message'', JStr ''boom'')]),
            (''result'', JStr ''ok'')]\<close>
  by (simp add: example_python_def example_lines_def strip_def is_space_def msg_id_def)

lemma ex_text_five:
  \<open>response_to example_python 101 (Line ''{"id":101,"result":{"content":[{"text":5}]}}'')
    = Some [(''id'', JInt 101),
            (''result'', JObj [(''content'', JList [JObj [(''text'', JInt 5)]])])]\<close>
  by (simp add: example_python_def example_lines_def strip_def is_space_def msg_id_def)

lemma ex_call_tool:
  assumes "list_all (skipped example_python 101) evs" "length evs < call_max_attempts"
    "response_to example_python 101 ev = Some kv"
  shows "fst (call_tool example_python (example_client (evs @ [ev])) ''foo'' (JObj []))
     = handle_response example_python (JObj kv)"
proof -
  let ?c = "example_client (evs @ [ev])"
  let ?p = "\<lparr>inbound = evs @ [ev], stdin_broken = False, on_terminate = ExitsOnTerminate\<rparr>"
  have c: "process ?c = Some ?p" "\<not> stdin_broken ?p" "inbound ?p = evs @ ev # []"
    "rpc_id_counter ?c + 1 = 101"
    by (simp_all add: example_client_def new_client_def)
  from call_tool_after_skipped [OF c(1,2,3), of example_python kv "''foo''" "JObj []"]
    assms c(4)
  show ?thesis by simp
qed

lemma ex_fifty_timeout:
  assumes "skipped example_python 101 ev"
  shows "fst (call_tool example_python (example_client (replicate 50 ev @ tl_evs)) ''foo'' (JObj []))
     = Raises ResponseTimeout"
proof -
  let ?evs = "replicate 50 ev"
  let ?c = "example_client (?evs @ tl_evs)"
  let ?p = "\<lparr>inbound = ?evs @ tl_evs, stdin_broken = False, on_terminate = ExitsOnTerminate\<rparr>"
  let ?c2 = "?c\<lparr>rpc_id_counter := 101, os_trace := os_trace ?c @ [Write (rpc_call 101 ''foo'' (JObj []))]\<rparr>"
  have s: "list_all (skipped example_python 101) ?evs"
    by (rule list_all_replicate [of "skipped example_python 101", OF assms])
  have c: "process ?c = Some ?p" "\<not> stdin_broken ?p" "rpc_id_counter ?c + 1 = 101"
    by (simp_all add: example_client_def new_client_def)
  have "wait_response example_python 101 0 ?c2 =
        wait_response example_python 101 (0 + length ?evs) (?c2\<lparr>process := Some (?p\<lparr>inbound := tl_evs\<rparr>)\<rparr>)"
    using s c by (intro wait_response_skip) (simp_all add: call_max_attempts_def)
  also have "\<dots> = (Returns JNull, ?c2\<lparr>process := Some (?p\<lparr>inbound := tl_evs\<rparr>)\<rparr>)"
    by (intro wait_response_exhausted) (simp add: call_max_attempts_def)
  finally have w: "wait_response example_python 101 0 ?c2 =
      (Returns JNull, ?c2\<lparr>process := Some (?p\<lparr>inbound := tl_evs\<rparr>)\<rparr>)" .
  show ?thesis
    using w c(3) by (simp add: call_tool_sent [OF c(1,2)])
qed

section \<open>Correlation\<close>

text \<open>
  C1. A tool call on an initialized connection (a process handle whose pipe takes the
  request) whose inbound stream delivers K unrelated
  messages (JSON objects whose \<^verbatim>\<open>id\<close> is absent or differs from the allocated identifier)
  and then a response with that identifier that carries \<^verbatim>\<open>result\<close> and no \<^verbatim>\<open>error\<close>:
  when K is less than the 50 poll attempts, the outcome of \<^verbatim>\<open>call_tool\<close> is the outcome of
  normalizing that result, that is the value the normalizer returns, or the
  \<^verbatim>\<open>TypeError\<close> it raises. The unrelated messages leave no trace: the client afterwards
  differs from the one before only by the counter, the one request written, and the
  lines consumed.
\<close>

theorem call_tool_skips_unrelated:
  assumes "process c = Some p" "\<not> stdin_broken p"
    "inbound p = evs @ ev # rest"
    "list_all (unrelated py (rpc_id_counter c + 1)) evs"
    "length evs < call_max_attempts"
    "response_to py (rpc_id_counter c + 1) ev = Some kv"
    "map_of kv ''error'' = None" "map_of kv ''result'' = Some r"
  shows "call_tool py c tool_name arguments =
     (normalize py r, Some (rpc_id_counter c + 1),
      c\<lparr>rpc_id_counter := rpc_id_counter c + 1,
        os_trace := os_trace c @ [Write (rpc_call (rpc_id_counter c + 1) tool_name arguments)],
        process := Some (p\<lparr>inbound := rest\<rparr>)\<rparr>)"
proof -
  have "list_all (skipped py (rpc_id_counter c + 1)) evs"
    using assms(4) by (simp add: list_all_iff unrelated_skipped)
  from call_tool_after_skipped [OF assms(1,2,3) this assms(5,6)]
  show ?thesis by (simp add: handle_response_result [OF assms(7,8)])
qed

text \<open>One unrelated message, then the response.\<close>

theorem call_tool_skips_unrelated_witness:
  \<open>call_tool example_python
     (example_client [Line ''{"id":7}'', Line ''{"id":101,"result":"ok"}'', Line ''{}''])
     ''foo'' (JObj []) =
   (Returns (JStr ''ok''), Some 101,
    (example_client [Line ''{}''])
       \<lparr>rpc_id_counter := 101, os_trace := [Write (rpc_call 101 ''foo'' (JObj []))]\<rparr>)\<close>
proof -
  let ?p = \<open>\<lparr>inbound = [Line ''{"id":7}'', Line ''{"id":101,"result":"ok"}'', Line ''{}''],
             stdin_broken = False, on_terminate = ExitsOnTerminate\<rparr>\<close>
  let ?c = \<open>example_client [Line ''{"id":7}'', Line ''{"id":101,"result":"ok"}'', Line ''{}'']\<close>
  have c: "process ?c = Some ?p" "rpc_id_counter ?c + 1 = 101"
    by (simp_all add: example_client_def new_client_def)
  have n: "normalize example_python (JStr ''ok'') = Returns (JStr ''ok'')"
    by (simp add: normalize_def)
  show ?thesis
    using call_tool_skips_unrelated [of ?c ?p \<open>[Line ''{"id":7}'']\<close>
        \<open>Line ''{"id":101,"result":"ok"}''\<close> \<open>[Line ''{}'']\<close> example_python
        \<open>[(''id'', JInt 101), (''result'', JStr ''ok'')]\<close> \<open>JStr ''ok''\<close> \<open>''foo''\<close> \<open>JObj []\<close>]
      c ex_unrelated ex_response n
    by (simp add: call_max_attempts_def example_client_def new_client_def)
qed

text \<open>
  Three inputs on which the call does not return the result the matching response
  carries. Fifty unrelated messages use up the attempts: the response behind them is
  never read and the call times out. A response that carries \<^verbatim>\<open>error\<close> beside its
  \<^verbatim>\<open>result\<close> raises the tool error. A result whose content item has the number 5 as its
  \<^verbatim>\<open>text\<close> makes the normalizer, and so the call, raise \<^verbatim>\<open>TypeError\<close>.
\<close>

theorem call_tool_skips_unrelated_counterexample:
  \<open>(list_all (unrelated example_python 101) (replicate 50 (Line ''{"id":7}'')) \<and>
    response_to example_python 101 (Line ''{"id":101,"result":"ok"}'')
      = Some [(''id'', JInt 101), (''result'', JStr ''ok'')] \<and>
    fst (call_tool example_python
      (example_client (replicate 50 (Line ''{"id":7}'') @ [Line ''{"id":101,"result":"ok"}'']))
      ''foo'' (JObj [])) = Raises ResponseTimeout) \<and>
   (response_to example_python 101 (Line ''{"id":101,"error":{"message":"boom"},"result":"ok"}'')
      = Some [(''id'', JInt 101), (''error'', JObj [(''message'', JStr ''boom'')]),
              (''result'', JStr ''ok'')] \<and>
    fst (call_tool example_python
      (example_client [Line ''{"id":101,"error":{"message":"boom"},"result":"ok"}''])
      ''foo'' (JObj [])) = Raises (ToolError (JStr ''boom''))) \<and>
   (unrelated example_python 101 (Line ''{"id":7}'') \<and>
    response_to example_python 101 (Line ''{"id":101,"result":{"content":[{"text":5}]}}'')
      = Some [(''id'', JInt 101),
              (''result'', JObj [(''content'', JList [JObj [(''text'', JInt 5)]])])] \<and>
    fst (call_tool example_python
      (example_client [Line ''{"id":7}'', Line ''{"id":101,"result":{"content":[{"text":5}]}}''])
      ''foo'' (JObj [])) = Raises TypeError)\<close>
proof -
  have u: "list_all (unrelated example_python 101) (replicate 50 (Line ''{\"id\":7}''))"
    by (rule list_all_replicate [of "unrelated example_python 101", OF ex_unrelated])
  have a: "fst (call_tool example_python
      (example_client (replicate 50 (Line ''{\"id\":7}'') @ [Line ''{\"id\":101,\"result\":\"ok\"}'']))
      ''foo'' (JObj [])) = Raises ResponseTimeout"
    by (rule ex_fifty_timeout [OF unrelated_skipped [OF ex_unrelated]])
  have b: "fst (call_tool example_python
      (example_client ([] @ [Line ''{\"id\":101,\"error\":{\"message\":\"boom\"},\"result\":\"ok\"}'']))
      ''foo'' (JObj [])) = Raises (ToolError (JStr ''boom''))"
    by (subst ex_call_tool [OF _ _ ex_error_and_result])
       (simp_all add: call_max_attempts_def handle_response_def)
  have c: "fst (call_tool example_python
      (example_client ([Line ''{\"id\":7}''] @ [Line ''{\"id\":101,\"result\":{\"content\":[{\"text\":5}]}}'']))
      ''foo'' (JObj [])) = Raises TypeError"
    using unrelated_skipped [OF ex_unrelated]
    by (subst ex_call_tool [OF _ _ ex_text_five])
       (simp_all add: call_max_attempts_def handle_response_def normalize_def blank_line_def)
  from u a b c ex_response ex_error_and_result ex_text_five ex_unrelated
  show ?thesis by simp
qed

section \<open>Bounded wait\<close>

text \<open>
  When every read returns and is passed over (the stream may also end), the call
  raises the timeout error: after the fiftieth read, or at end of file once the
  attempts are used up.
\<close>

lemma call_tool_times_out:
  assumes "process c = Some p" "\<not> stdin_broken p"
    "list_all (skipped py (rpc_id_counter c + 1)) (inbound p)"
  shows "fst (call_tool py c tool_name arguments) = Raises ResponseTimeout"
proof -
  let ?cid = "rpc_id_counter c + 1"
  let ?c2 = "c\<lparr>rpc_id_counter := ?cid,
                os_trace := os_trace c @ [Write (rpc_call ?cid tool_name arguments)]\<rparr>"
  let ?evs = "take call_max_attempts (inbound p)"
  let ?rest = "drop call_max_attempts (inbound p)"
  let ?c3 = "?c2\<lparr>process := Some (p\<lparr>inbound := ?rest\<rparr>)\<rparr>"
  have sk: "list_all (skipped py ?cid) ?evs"
    using assms(3) by (auto simp: list_all_iff dest: in_set_takeD)
  have "wait_response py ?cid 0 ?c2 = wait_response py ?cid (0 + length ?evs) ?c3"
    using sk assms(1) by (intro wait_response_skip) auto
  also have "\<dots> = (Returns JNull, ?c3)"
  proof (cases "call_max_attempts \<le> length (inbound p)")
    case True
    then show ?thesis by (intro wait_response_exhausted) simp
  next
    case False
    then show ?thesis by (intro wait_response_eof [of _ "p\<lparr>inbound := ?rest\<rparr>"]) auto
  qed
  finally show ?thesis
    by (simp add: call_tool_sent [OF assms(1,2)])
qed

text \<open>
  C3. A tool call whose response never arrives should raise the timeout error within
  the 50 poll attempts and never hang. Each attempt is a \<^verbatim>\<open>readline\<close> on the child's
  standard output, which blocks while the child is alive and writes nothing: the first
  attempt then never returns, and the call hangs without reaching its bound.
\<close>

theorem call_tool_hangs_on_silent_server:
  "call_tool example_python (example_client [Blocks]) ''foo'' (JObj []) =
     (Hangs, Some 101,
      (example_client [Blocks])
        \<lparr>rpc_id_counter := 101, os_trace := [Write (rpc_call 101 ''foo'' (JObj []))]\<rparr>)"
proof -
  let ?c = "example_client [Blocks]"
  let ?p = "\<lparr>inbound = [Blocks], stdin_broken = False, on_terminate = ExitsOnTerminate\<rparr>"
  have c: "process ?c = Some ?p" "\<not> stdin_broken ?p"
    by (simp_all add: example_client_def new_client_def)
  have i: "rpc_id_counter ?c + 1 = 101" "os_trace ?c = []"
    by (simp_all add: example_client_def new_client_def)
  have w: "wait_response example_python 101 0
        (?c\<lparr>rpc_id_counter := 101, os_trace := [Write (rpc_call 101 ''foo'' (JObj []))]\<rparr>)
      = (Hangs, ?c\<lparr>rpc_id_counter := 101, os_trace := [Write (rpc_call 101 ''foo'' (JObj []))]\<rparr>)"
    by (subst wait_response.simps)
       (simp add: call_max_attempts_def read_json_line_def example_client_def new_client_def)
  show ?thesis
    using w by (simp add: call_tool_sent [OF c] i)
qed

section \<open>Response normalizer\<close>

lemma combine_map: "combine py acc items = acc @ map (item_text py) items"
  by (induction items arbitrary: acc) simp_all

lemma item_text_spec: "item_text py item = spec_item_text py item"
  by (cases item) (auto simp: spec_item_text_def split: option.splits json.splits)

lemma py_join_texts:
  "py_join sep xs =
     (if list_all is_text xs then Inr (join_with sep (map the_text xs)) else Inl TypeError)"
proof (induction sep xs rule: py_join.induct)
qed auto

text \<open>
  C4. For a result whose \<^verbatim>\<open>content\<close> field holds an empty sequence, the normalization
  returns that content itself, the empty list (not the empty string).
\<close>

theorem normalize_empty_content:
  "map_of kv ''content'' = Some (JList []) \<Longrightarrow> normalize py (JObj kv) = Returns (JList [])"
  by (simp add: normalize_def)

text \<open>The result \<^verbatim>\<open>{"content": []}\<close>.\<close>

theorem normalize_empty_content_witness:
  "normalize example_python (JObj [(''content'', JList [])]) = Returns (JList [])"
  using normalize_empty_content [of "[(''content'', JList [])]" example_python] by simp

text \<open>The value returned for \<^verbatim>\<open>{"content": []}\<close> is not the empty string.\<close>

theorem normalize_empty_content_counterexample:
  "normalize example_python (JObj [(''content'', JList [])]) \<noteq> Returns (JStr [])"
  by (simp add: normalize_def)

text \<open>
  C5. For a result whose \<^verbatim>\<open>content\<close> field holds a non-empty sequence of items, the
  normalizer takes from each item, in order, its \<^verbatim>\<open>text\<close> field if present, else the
  \<^verbatim>\<open>text\<close> field of its \<^verbatim>\<open>raw\<close> sub-object, else the item itself if it is a plain
  string, else a textual coercion of the item. When all of these are strings it returns
  them joined by a blank line; when a \<^verbatim>\<open>text\<close> field holds something else than a
  string, joining raises \<^verbatim>\<open>TypeError\<close>.
\<close>

theorem normalize_content_items:
  assumes "map_of kv ''content'' = Some (JList items)" "items \<noteq> []"
  shows "normalize py (JObj kv) =
     (if list_all is_text (map (spec_item_text py) items)
      then Returns (JStr (join_with blank_line (map (\<lambda>item. the_text (spec_item_text py item)) items)))
      else Raises TypeError)"
proof -
  have m: "map (item_text py) items = map (spec_item_text py) items"
    by (simp add: item_text_spec)
  show ?thesis
    using assms by (simp add: normalize_def combine_map m py_join_texts comp_def)
qed

text \<open>The content \<^verbatim>\<open>[{"text":"a"},{"raw":{"text":"b"}},"c"]\<close>.\<close>

theorem normalize_content_items_witness:
  "normalize example_python
     (JObj [(''content'', JList [JObj [(''text'', JStr ''a'')],
                                 JObj [(''raw'', JObj [(''text'', JStr ''b'')])],
                                 JStr ''c''])]) =
   Returns (JStr [CHR ''a'', CHR 0x0A, CHR 0x0A, CHR ''b'', CHR 0x0A, CHR 0x0A, CHR ''c''])"
  using normalize_content_items [of "[(''content'', JList [JObj [(''text'', JStr ''a'')],
                                 JObj [(''raw'', JObj [(''text'', JStr ''b'')])],
                                 JStr ''c''])]" "[JObj [(''text'', JStr ''a'')],
                                 JObj [(''raw'', JObj [(''text'', JStr ''b'')])],
                                 JStr ''c'']" example_python]
  by (simp add: spec_item_text_def blank_line_def)

text \<open>
  The content \<^verbatim>\<open>[{"text": 5}]\<close>: the \<^verbatim>\<open>text\<close> field is appended as it is, and
  \<^verbatim>\<open>join\<close> raises on the integer.
\<close>

theorem normalize_text_not_string_counterexample:
  "normalize example_python (JObj [(''content'', JList [JObj [(''text'', JInt 5)]])])
     = Raises TypeError"
  by (simp add: normalize_def blank_line_def)

section \<open>The matched response\<close>

lemma read_json_line_process:
  assumes "read_json_line py c = (r, c')"
  shows "(process c = None \<longrightarrow> c' = c \<and> r = Returns JNull) \<and>
         (\<forall>p. process c = Some p \<longrightarrow>
            (\<exists>p'. process c' = Some p' \<and> set (inbound p') \<subseteq> set (inbound p)))"
  using assms
  by (auto simp: read_json_line_def Let_def split: option.splits list.splits read_event.splits if_splits)

lemma read_json_line_truthy:
  assumes "read_json_line py c = (Returns (JObj kv), c')" "py_eq_int (msg_id kv) call_id"
  shows "\<exists>p ev. process c = Some p \<and> ev \<in> set (inbound p) \<and> response_to py call_id ev = Some kv"
proof -
  from assms(2) have kv: "JObj kv \<noteq> JNull" by simp
  from assms(1) kv obtain p l rest where p: "process c = Some p" "inbound p = Line l # rest"
    and l: "strip l \<noteq> []" "json_loads py (strip l) = Some (JObj kv)"
    by (auto simp: read_json_line_def Let_def
        split: option.splits list.splits read_event.splits if_splits)
  then have "response_to py call_id (Line l) = Some kv" using assms(2) by simp
  with p show ?thesis by auto
qed

lemma wait_response_found:
  "wait_response py call_id attempts c = (Returns msg, c') \<Longrightarrow> truthy msg \<Longrightarrow>
   \<exists>p ev kv. process c = Some p \<and> ev \<in> set (inbound p) \<and>
     response_to py call_id ev = Some kv \<and> msg = JObj kv"
proof (induction py call_id attempts c rule: wait_response.induct)
  case (1 py call_id attempts c)
  show ?case
  proof (cases "attempts < call_max_attempts")
    case False
    with "1.prems" show ?thesis by (subst (asm) wait_response.simps) auto
  next
    case True
    obtain r c1 where r: "read_json_line py c = (r, c1)" by (cases "read_json_line py c")
    note pr = read_json_line_process [OF r]
    show ?thesis
    proof (cases r)
      case (Returns m)
      show ?thesis
      proof (cases "truthy m")
        case False
        then have w: "wait_response py call_id (attempts + 1) c1 = (Returns msg, c')"
          using "1.prems"(1) True r Returns by (subst (asm) wait_response.simps) simp
        from "1.IH"(1) [OF True r [unfolded Returns, symmetric] refl] False w "1.prems"(2)
        obtain p1 ev kv where "process c1 = Some p1" "ev \<in> set (inbound p1)"
          "response_to py call_id ev = Some kv" "msg = JObj kv" by auto
        with pr show ?thesis by (cases "process c") auto
      next
        case t: True
        show ?thesis
        proof (cases m)
          case (JObj kv)
          show ?thesis
          proof (cases "py_eq_int (msg_id kv) call_id")
            case e: True
            then have "msg = JObj kv"
              using "1.prems"(1) True r Returns t JObj
              by (subst (asm) wait_response.simps) (simp add: msg_id_def)
            moreover from read_json_line_truthy [OF r [unfolded Returns JObj] e]
            obtain p ev where "process c = Some p" "ev \<in> set (inbound p)"
              "response_to py call_id ev = Some kv" by auto
            ultimately show ?thesis by auto
          next
            case ne: False
            then have w: "wait_response py call_id (attempts + 1) c1 = (Returns msg, c')"
              using "1.prems"(1) True r Returns t JObj
              by (subst (asm) wait_response.simps) (simp add: msg_id_def)
            have g: "py_get m ''id'' JNull = Inr (msg_id kv)" using JObj by (simp add: msg_id_def)
            from "1.IH"(2) [OF True r [unfolded Returns, symmetric] refl _ g ne] t w "1.prems"(2)
            obtain p1 ev kv' where "process c1 = Some p1" "ev \<in> set (inbound p1)"
              "response_to py call_id ev = Some kv'" "msg = JObj kv'" by auto
            with pr show ?thesis by (cases "process c") auto
          qed
        qed (use "1.prems"(1) True r Returns t in
              \<open>(subst (asm) wait_response.simps, simp)+\<close>)
      qed
    qed (use "1.prems"(1) True r in \<open>(subst (asm) wait_response.simps, simp)+\<close>)
  qed
qed

lemma handle_response_returns:
  assumes "handle_response py (JObj kv) = Returns v"
  shows "\<exists>r. map_of kv ''error'' = None \<and> map_of kv ''result'' = Some r \<and> normalize py r = Returns v"
  using assms by (auto simp: handle_response_def split: option.splits sum.splits)

lemma handle_response_missing:
  "map_of kv ''result'' = None \<Longrightarrow> map_of kv ''error'' = None \<Longrightarrow>
   handle_response py (JObj kv) = Raises InvalidResponse"
  by (simp add: handle_response_def)

lemma call_tool_returns:
  assumes "fst (call_tool py c tool_name arguments) = Returns v"
  shows "\<exists>p ev kv r. process c = Some p \<and> ev \<in> set (inbound p) \<and>
           response_to py (rpc_id_counter c + 1) ev = Some kv \<and>
           map_of kv ''error'' = None \<and> map_of kv ''result'' = Some r \<and>
           normalize py r = Returns v"
proof (cases "process c")
  case None
  with assms show ?thesis by (simp add: call_tool_def)
next
  case (Some p)
  show ?thesis
  proof (cases "stdin_broken p")
    case True
    with assms Some show ?thesis by (simp add: call_tool_def send_message_def Let_def)
  next
    case False
    let ?cid = "rpc_id_counter c + 1"
    let ?c2 = "c\<lparr>rpc_id_counter := ?cid,
                  os_trace := os_trace c @ [Write (rpc_call ?cid tool_name arguments)]\<rparr>"
    obtain r c3 where w: "wait_response py ?cid 0 ?c2 = (r, c3)"
      by (cases "wait_response py ?cid 0 ?c2")
    from assms w obtain resp where r: "r = Returns resp" and t: "truthy resp"
      and h: "handle_response py resp = Returns v"
      by (cases r) (auto simp: call_tool_sent [OF Some False] split: if_splits)
    from wait_response_found [OF w [unfolded r] t] Some
    obtain ev kv where e: "ev \<in> set (inbound p)" "response_to py ?cid ev = Some kv" "resp = JObj kv"
      by auto
    from handle_response_returns [OF h [unfolded e(3)]] e Some show ?thesis by auto
  qed
qed

lemma ex_bare_response:
  \<open>response_to example_python 101 (Line ''{"id":101}'') = Some [(''id'', JInt 101)]\<close>
  by (simp add: example_python_def example_lines_def strip_def is_space_def msg_id_def)

text \<open>
  C9. A matched response (its \<^verbatim>\<open>id\<close> equals the call's identifier) that carries neither
  \<^verbatim>\<open>result\<close> nor \<^verbatim>\<open>error\<close> makes \<^verbatim>\<open>call_tool\<close> raise the invalid-response error. And
  whenever \<^verbatim>\<open>call_tool\<close> returns a value, the inbound stream held a response with the
  call's identifier that carries \<^verbatim>\<open>result\<close> and no \<^verbatim>\<open>error\<close>, and the value is the
  normalization of that result.
\<close>

theorem call_tool_missing_result:
  "(\<forall>p evs ev rest kv.
      process c = Some p \<and> \<not> stdin_broken p \<and> inbound p = evs @ ev # rest \<and>
      list_all (skipped py (rpc_id_counter c + 1)) evs \<and> length evs < call_max_attempts \<and>
      response_to py (rpc_id_counter c + 1) ev = Some kv \<and>
      map_of kv ''result'' = None \<and> map_of kv ''error'' = None
      \<longrightarrow> fst (call_tool py c tool_name arguments) = Raises InvalidResponse) \<and>
   (\<forall>v. fst (call_tool py c tool_name arguments) = Returns v
      \<longrightarrow> (\<exists>p ev kv r. process c = Some p \<and> ev \<in> set (inbound p) \<and>
             response_to py (rpc_id_counter c + 1) ev = Some kv \<and>
             map_of kv ''error'' = None \<and> map_of kv ''result'' = Some r \<and>
             normalize py r = Returns v))"
proof (intro conjI allI impI)
  fix p evs ev rest kv
  assume a: "process c = Some p \<and> \<not> stdin_broken p \<and> inbound p = evs @ ev # rest \<and>
      list_all (skipped py (rpc_id_counter c + 1)) evs \<and> length evs < call_max_attempts \<and>
      response_to py (rpc_id_counter c + 1) ev = Some kv \<and>
      map_of kv ''result'' = None \<and> map_of kv ''error'' = None"
  then have "call_tool py c tool_name arguments =
     (handle_response py (JObj kv), Some (rpc_id_counter c + 1),
      c\<lparr>rpc_id_counter := rpc_id_counter c + 1,
        os_trace := os_trace c @ [Write (rpc_call (rpc_id_counter c + 1) tool_name arguments)],
        process := Some (p\<lparr>inbound := rest\<rparr>)\<rparr>)"
    by (intro call_tool_after_skipped) auto
  with a show "fst (call_tool py c tool_name arguments) = Raises InvalidResponse"
    by (simp add: handle_response_missing)
next
  fix v
  assume "fst (call_tool py c tool_name arguments) = Returns v"
  then show "\<exists>p ev kv r. process c = Some p \<and> ev \<in> set (inbound p) \<and>
             response_to py (rpc_id_counter c + 1) ev = Some kv \<and>
             map_of kv ''error'' = None \<and> map_of kv ''result'' = Some r \<and>
             normalize py r = Returns v"
    by (rule call_tool_returns)
qed

text \<open>An unrelated message, then the reply \<^verbatim>\<open>{"id":101}\<close> to call 101.\<close>

theorem call_tool_missing_result_witness:
  \<open>fst (call_tool example_python (example_client [Line ''{"id":7}'', Line ''{"id":101}''])
      ''foo'' (JObj [])) = Raises InvalidResponse\<close>
proof -
  let ?evs = \<open>[Line ''{"id":7}'', Line ''{"id":101}'']\<close>
  let ?c = "example_client ?evs"
  let ?p = "\<lparr>inbound = ?evs, stdin_broken = False, on_terminate = ExitsOnTerminate\<rparr>"
  have c: "process ?c = Some ?p" "rpc_id_counter ?c + 1 = 101"
    by (simp_all add: example_client_def new_client_def)
  have s: \<open>list_all (skipped example_python 101) [Line ''{"id":7}'']\<close>
    using unrelated_skipped [OF ex_unrelated] by simp
  have "process ?c = Some ?p \<and> \<not> stdin_broken ?p \<and>
      inbound ?p = [Line ''{\"id\":7}''] @ Line ''{\"id\":101}'' # [] \<and>
      list_all (skipped example_python (rpc_id_counter ?c + 1)) [Line ''{\"id\":7}''] \<and>
      length [Line ''{\"id\":7}''] < call_max_attempts \<and>
      response_to example_python (rpc_id_counter ?c + 1) (Line ''{\"id\":101}'') = Some [(''id'', JInt 101)] \<and>
      map_of [(''id'', JInt 101)] ''result'' = None \<and> map_of [(''id'', JInt 101)] ''error'' = None"
    using c s ex_bare_response by (simp add: call_max_attempts_def)
  with call_tool_missing_result [of ?c example_python "''foo''" "JObj []"]
  show ?thesis by blast
qed

section \<open>Rejected lines\<close>

lemma ex_rejected: "rejected example_python ''Server ready''"
  by (simp add: rejected_def example_python_def example_lines_def strip_def is_space_def)

lemma rejected_skipped: "rejected py l \<Longrightarrow> skipped py call_id (Line l)"
  by (simp add: rejected_def)

text \<open>
  C6. An inbound line that \<^verbatim>\<open>json.loads\<close> rejects makes the line-reading operation
  return \<^verbatim>\<open>None\<close>: the line is consumed and nothing is raised. It does not satisfy a
  pending wait, which goes on with one attempt used. And a later line carrying an
  object with the awaited identifier still ends the wait, with the outcome the response
  handling gives for that message, when fewer than 50 reads come before it in the call:
  the rejected line and, before and after it, any other reads the wait passes over.
\<close>

theorem read_json_line_rejected:
  assumes "rejected py l"
  shows
   "(\<forall>(c::mcp_client) p rest. process c = Some p \<and> inbound p = Line l # rest \<longrightarrow>
       read_json_line py c = (Returns JNull, c\<lparr>process := Some (p\<lparr>inbound := rest\<rparr>)\<rparr>) \<and>
       (\<forall>call_id attempts. attempts < call_max_attempts \<longrightarrow>
          wait_response py call_id attempts c =
          wait_response py call_id (Suc attempts) (c\<lparr>process := Some (p\<lparr>inbound := rest\<rparr>)\<rparr>))) \<and>
    (\<forall>(c::mcp_client) p before after ev rest kv tool_name arguments.
       process c = Some p \<and> \<not> stdin_broken p \<and>
       inbound p = before @ Line l # after @ ev # rest \<and>
       list_all (skipped py (rpc_id_counter c + 1)) before \<and>
       list_all (skipped py (rpc_id_counter c + 1)) after \<and>
       length before + 1 + length after < call_max_attempts \<and>
       response_to py (rpc_id_counter c + 1) ev = Some kv \<longrightarrow>
       call_tool py c tool_name arguments =
         (handle_response py (JObj kv), Some (rpc_id_counter c + 1),
          c\<lparr>rpc_id_counter := rpc_id_counter c + 1,
            os_trace := os_trace c @ [Write (rpc_call (rpc_id_counter c + 1) tool_name arguments)],
            process := Some (p\<lparr>inbound := rest\<rparr>)\<rparr>))"
proof (intro conjI allI impI)
  fix c :: mcp_client and p rest
  assume a: "process c = Some p \<and> inbound p = Line l # rest"
  then show "read_json_line py c = (Returns JNull, c\<lparr>process := Some (p\<lparr>inbound := rest\<rparr>)\<rparr>)"
    using assms by (simp add: read_json_line_def Let_def rejected_def)
  fix call_id attempts
  assume "attempts < call_max_attempts"
  then show "wait_response py call_id attempts c =
       wait_response py call_id (Suc attempts) (c\<lparr>process := Some (p\<lparr>inbound := rest\<rparr>)\<rparr>)"
    using a rejected_skipped [OF assms] by (intro wait_response_step) auto
next
  fix c :: mcp_client and p before after ev rest kv tool_name arguments
  assume a: "process c = Some p \<and> \<not> stdin_broken p \<and>
       inbound p = before @ Line l # after @ ev # rest \<and>
       list_all (skipped py (rpc_id_counter c + 1)) before \<and>
       list_all (skipped py (rpc_id_counter c + 1)) after \<and>
       length before + 1 + length after < call_max_attempts \<and>
       response_to py (rpc_id_counter c + 1) ev = Some kv"
  then have "inbound p = (before @ Line l # after) @ ev # rest" by simp
  moreover have "list_all (skipped py (rpc_id_counter c + 1)) (before @ Line l # after)"
    using a rejected_skipped [OF assms] by simp
  ultimately show "call_tool py c tool_name arguments =
         (handle_response py (JObj kv), Some (rpc_id_counter c + 1),
          c\<lparr>rpc_id_counter := rpc_id_counter c + 1,
            os_trace := os_trace c @ [Write (rpc_call (rpc_id_counter c + 1) tool_name arguments)],
            process := Some (p\<lparr>inbound := rest\<rparr>)\<rparr>)"
    using a by (intro call_tool_after_skipped) auto
qed

text \<open>
  A line of log text read on its own; and a call that reads an unrelated message, the
  log line, an empty object and then its response.
\<close>

theorem read_json_line_rejected_witness:
  \<open>read_json_line example_python
      (example_client [Line ''Server ready'', Line ''{"id":101,"result":"ok"}''])
     = (Returns JNull, example_client [Line ''{"id":101,"result":"ok"}'']) \<and>
   call_tool example_python
      (example_client [Line ''{"id":7}'', Line ''Server ready'', Line ''{}'',
                       Line ''{"id":101,"result":"ok"}''])
      ''foo'' (JObj [])
     = (Returns (JStr ''ok''), Some 101,
        (example_client [])
          \<lparr>rpc_id_counter := 101, os_trace := [Write (rpc_call 101 ''foo'' (JObj []))]\<rparr>)\<close>
proof -
  let ?good = \<open>Line ''{"id":101,"result":"ok"}''\<close>
  let ?c1 = "example_client [Line ''Server ready'', ?good]"
  let ?p1 = "\<lparr>inbound = [Line ''Server ready'', ?good], stdin_broken = False,
              on_terminate = ExitsOnTerminate\<rparr>"
  let ?evs = \<open>[Line ''{"id":7}'', Line ''Server ready'', Line ''{}'', ?good]\<close>
  let ?c2 = "example_client ?evs"
  let ?p2 = "\<lparr>inbound = ?evs, stdin_broken = False, on_terminate = ExitsOnTerminate\<rparr>"
  note r = read_json_line_rejected [OF ex_rejected]
  have c1: "process ?c1 = Some ?p1 \<and> inbound ?p1 = Line ''Server ready'' # [?good]"
    by (simp add: example_client_def new_client_def)
  from r c1 have 1: "read_json_line example_python ?c1 =
      (Returns JNull, ?c1\<lparr>process := Some (?p1\<lparr>inbound := [?good]\<rparr>)\<rparr>)" by blast
  have e: "skipped example_python 101 (Line ''{}'')"
    by (simp add: example_python_def example_lines_def strip_def is_space_def)
  have c2: "process ?c2 = Some ?p2 \<and> \<not> stdin_broken ?p2 \<and>
       inbound ?p2 = [Line ''{\"id\":7}''] @ Line ''Server ready'' # [Line ''{}''] @ ?good # [] \<and>
       list_all (skipped example_python (rpc_id_counter ?c2 + 1)) [Line ''{\"id\":7}''] \<and>
       list_all (skipped example_python (rpc_id_counter ?c2 + 1)) [Line ''{}''] \<and>
       length [Line ''{\"id\":7}''] + 1 + length [Line ''{}''] < call_max_attempts \<and>
       response_to example_python (rpc_id_counter ?c2 + 1) ?good
         = Some [(''id'', JInt 101), (''result'', JStr ''ok'')]"
    using unrelated_skipped [OF ex_unrelated] e ex_response
    by (simp add: example_client_def new_client_def call_max_attempts_def)
  from r c2 have 2: "call_tool example_python ?c2 ''foo'' (JObj []) =
      (handle_response example_python (JObj [(''id'', JInt 101), (''result'', JStr ''ok'')]),
       Some (rpc_id_counter ?c2 + 1),
       ?c2\<lparr>rpc_id_counter := rpc_id_counter ?c2 + 1,
          os_trace := os_trace ?c2 @ [Write (rpc_call (rpc_id_counter ?c2 + 1) ''foo'' (JObj []))],
          process := Some (?p2\<lparr>inbound := []\<rparr>)\<rparr>)"
    by blast
  have h: "handle_response example_python (JObj [(''id'', JInt 101), (''result'', JStr ''ok'')])
      = Returns (JStr ''ok'')"
    by (simp add: handle_response_def normalize_def)
  from 1 2 h show ?thesis
    by (simp add: example_client_def new_client_def)
qed

text \<open>
  Fifty lines of log text use up the attempts, and the response behind them is never
  read. And the line \<^verbatim>\<open>NaN\<close>, which is not JSON, is accepted by \<^verbatim>\<open>json.loads\<close>: the
  line-reading operation returns the float, and \<^verbatim>\<open>msg.get\<close> on it raises
  \<^verbatim>\<open>AttributeError\<close> out of the call, although the response is the next line.
\<close>

theorem read_json_line_rejected_counterexample:
  \<open>(rejected example_python ''Server ready'' \<and>
    fst (call_tool example_python
      (example_client (replicate 50 (Line ''Server ready'') @ [Line ''{"id":101,"result":"ok"}'']))
      ''foo'' (JObj [])) = Raises ResponseTimeout) \<and>
   (read_json_line example_python (example_client [Line ''NaN'', Line ''{"id":101,"result":"ok"}''])
      = (Returns (JFloat FNaN), example_client [Line ''{"id":101,"result":"ok"}'']) \<and>
    fst (call_tool example_python
      (example_client [Line ''NaN'', Line ''{"id":101,"result":"ok"}'']) ''foo'' (JObj []))
      = Raises AttributeError)\<close>
proof -
  have a: "fst (call_tool example_python
      (example_client (replicate 50 (Line ''Server ready'') @ [Line ''{\"id\":101,\"result\":\"ok\"}'']))
      ''foo'' (JObj [])) = Raises ResponseTimeout"
    by (rule ex_fifty_timeout [OF rejected_skipped [OF ex_rejected]])
  have b: "read_json_line example_python
      (example_client [Line ''NaN'', Line ''{\"id\":101,\"result\":\"ok\"}''])
      = (Returns (JFloat FNaN), example_client [Line ''{\"id\":101,\"result\":\"ok\"}''])"
    by (simp add: read_json_line_def example_client_def new_client_def Let_def
        example_python_def example_lines_def strip_def is_space_def)
  have c: "fst (call_tool example_python
      (example_client [Line ''NaN'', Line ''{\"id\":101,\"result\":\"ok\"}'']) ''foo'' (JObj []))
      = Raises AttributeError"
    by (simp add: call_tool_def send_message_def wait_response.simps [of _ _ 0]
        read_json_line_def example_client_def new_client_def Let_def call_max_attempts_def
        example_python_def example_lines_def strip_def is_space_def)
  from a b c ex_rejected show ?thesis by simp
qed

section \<open>What the methods keep\<close>

lemma send_message_keeps:
  "send_message c m = Inr c' \<Longrightarrow> process c' = process c \<and> rpc_id_counter c' = rpc_id_counter c"
  by (auto simp: send_message_def split: option.splits if_splits)

lemma send_all_keeps:
  "send_all c ms = (r, c') \<Longrightarrow> process c' = process c \<and> rpc_id_counter c' = rpc_id_counter c"
proof (induction ms arbitrary: c)
  case Nil
  then show ?case by simp
next
  case (Cons m ms)
  show ?case
  proof (cases "send_message c m")
    case (Inl e)
    with Cons.prems show ?thesis by simp
  next
    case (Inr c1)
    with Cons.prems have "send_all c1 ms = (r, c')" by simp
    from Cons.IH [OF this] send_message_keeps [OF Inr] show ?thesis by simp
  qed
qed

lemma read_json_line_keeps:
  assumes "read_json_line py c = (r, c')"
  shows "rpc_id_counter c' = rpc_id_counter c \<and> (process c' = None \<longleftrightarrow> process c = None)"
  using assms
  by (auto simp: read_json_line_def Let_def
      split: option.splits list.splits read_event.splits if_splits)

lemma wait_response_keeps:
  "wait_response py call_id attempts c = (r, c') \<Longrightarrow>
   rpc_id_counter c' = rpc_id_counter c \<and> (process c' = None \<longleftrightarrow> process c = None)"
proof (induction py call_id attempts c rule: wait_response.induct)
  case (1 py call_id attempts c)
  show ?case
  proof (cases "attempts < call_max_attempts")
    case False
    with "1.prems" show ?thesis by (subst (asm) wait_response.simps) auto
  next
    case True
    obtain r1 c1 where r: "read_json_line py c = (r1, c1)" by (cases "read_json_line py c")
    note k = read_json_line_keeps [OF r]
    show ?thesis
    proof (cases r1)
      case (Returns m)
      note IH1 = "1.IH"(1) [OF True r [unfolded Returns, symmetric] refl]
      note IH2 = "1.IH"(2) [OF True r [unfolded Returns, symmetric] refl]
      show ?thesis
      proof (cases "truthy m")
        case False
        then have "wait_response py call_id (attempts + 1) c1 = (r, c')"
          using "1.prems" True r Returns by (subst (asm) wait_response.simps) simp
        from IH1 [OF False this] k show ?thesis by simp
      next
        case t: True
        show ?thesis
        proof (cases "py_get m ''id'' JNull")
          case (Inl e)
          then have "c' = c1" using "1.prems" True r Returns t
            by (subst (asm) wait_response.simps) simp
          with k show ?thesis by simp
        next
          case (Inr v)
          show ?thesis
          proof (cases "py_eq_int v call_id")
            case True
            then have "c' = c1" using "1.prems" \<open>attempts < call_max_attempts\<close> r Returns t Inr
              by (subst (asm) wait_response.simps) simp
            with k show ?thesis by simp
          next
            case False
            then have "wait_response py call_id (attempts + 1) c1 = (r, c')"
              using "1.prems" True r Returns t Inr by (subst (asm) wait_response.simps) simp
            from IH2 [OF _ Inr False this] t k show ?thesis by simp
          qed
        qed
      qed
    next
      case (Raises e)
      then have "c' = c1" using "1.prems" True r by (subst (asm) wait_response.simps) simp
      with k show ?thesis by simp
    next
      case Hangs
      then have "c' = c1" using "1.prems" True r by (subst (asm) wait_response.simps) simp
      with k show ?thesis by simp
    qed
  qed
qed

lemma call_tool_counter:
  assumes "call_tool py c tool_name arguments = (r, i, c')"
  shows "(process c = None \<longrightarrow> i = None \<and> c' = c) \<and>
         (process c \<noteq> None \<longrightarrow> i = Some (rpc_id_counter c + 1) \<and>
            rpc_id_counter c' = rpc_id_counter c + 1)"
proof (cases "process c")
  case None
  with assms show ?thesis by (simp add: call_tool_def)
next
  case (Some p)
  show ?thesis
  proof (cases "stdin_broken p")
    case True
    with assms Some show ?thesis by (auto simp: call_tool_def send_message_def Let_def)
  next
    case False
    let ?cid = "rpc_id_counter c + 1"
    let ?c2 = "c\<lparr>rpc_id_counter := ?cid,
                  os_trace := os_trace c @ [Write (rpc_call ?cid tool_name arguments)]\<rparr>"
    obtain r3 c3 where w: "wait_response py ?cid 0 ?c2 = (r3, c3)"
      by (cases "wait_response py ?cid 0 ?c2")
    from assms w have "i = Some ?cid" "c' = c3"
      by (auto simp: call_tool_sent [OF Some False] split: outcome.splits if_splits)
    with wait_response_keeps [OF w] Some show ?thesis by simp
  qed
qed

lemma wait_tools_keeps:
  "wait_tools py attempts c = (r, c') \<Longrightarrow>
   rpc_id_counter c' = rpc_id_counter c \<and> (process c' = None \<longleftrightarrow> process c = None)"
proof (induction py attempts c rule: wait_tools.induct)
  case (1 py attempts c)
  show ?case
  proof (cases "attempts < init_max_attempts")
    case False
    with "1.prems" show ?thesis by (subst (asm) wait_tools.simps) auto
  next
    case True
    obtain r1 c1 where r: "read_json_line py c = (r1, c1)" by (cases "read_json_line py c")
    note k = read_json_line_keeps [OF r]
    from "1.prems" True r
    have "c' = c1 \<or> wait_tools py (attempts + 1) c1 = (r, c')"
      by (subst (asm) wait_tools.simps)
         (auto split: outcome.splits if_splits json.splits sum.splits)
    then show ?thesis
    proof
      assume "c' = c1"
      with k show ?thesis by simp
    next
      assume w: "wait_tools py (attempts + 1) c1 = (r, c')"
      from "1.prems" True r w
      have "rpc_id_counter c' = rpc_id_counter c1 \<and> (process c' = None \<longleftrightarrow> process c1 = None)"
        by (subst (asm) wait_tools.simps)
           (auto split: outcome.splits if_splits json.splits sum.splits
              dest: "1.IH"(1) [OF True r [symmetric]] "1.IH"(2) [OF True r [symmetric]])
      with k show ?thesis by simp
    qed
  qed
qed

lemma initialize_try_keeps:
  assumes "initialize_try py spawned c = (r, c')"
  shows "rpc_id_counter c' = rpc_id_counter c \<and>
         (spawned = None \<longrightarrow> c' = c \<and> r = Raises OSError) \<and>
         (spawned \<noteq> None \<longrightarrow> process c' \<noteq> None)"
proof (cases spawned)
  case None
  with assms show ?thesis by (auto simp: initialize_try_def)
next
  case (Some p)
  let ?c1 = "c\<lparr>process := Some p, os_trace := os_trace c @ [Spawn]\<rparr>"
  obtain e c2 where s: "send_all ?c1 (init_messages ?c1) = (e, c2)"
    by (cases "send_all ?c1 (init_messages ?c1)")
  note k2 = send_all_keeps [OF s]
  show ?thesis
  proof (cases e)
    case (Some err)
    with assms s \<open>spawned = Some p\<close> have "c' = c2" by (simp add: initialize_try_def Let_def)
    with k2 \<open>spawned = Some p\<close> show ?thesis by simp
  next
    case None
    obtain r3 c3 where w: "wait_tools py 0 c2 = (r3, c3)" by (cases "wait_tools py 0 c2")
    from assms s None w \<open>spawned = Some p\<close> have "c' = c3"
      by (auto simp: initialize_try_def Let_def split: outcome.splits if_splits)
    with wait_tools_keeps [OF w] k2 \<open>spawned = Some p\<close> show ?thesis by simp
  qed
qed

lemma initialize_keeps:
  assumes "initialize py spawned c = (r, c')"
  shows "rpc_id_counter c' = rpc_id_counter c"
proof -
  obtain r1 c1 where t: "initialize_try py spawned c = (r1, c1)"
    by (cases "initialize_try py spawned c")
  from assms t have "rpc_id_counter c' = rpc_id_counter c1"
    by (cases r1) (auto simp: initialize_def split: option.splits)
  with initialize_try_keeps [OF t] show ?thesis by simp
qed

lemma initialize_raises:
  assumes "initialize py spawned c = (Raises e, c')"
  shows "process c' = None \<and> (spawned \<noteq> None \<longrightarrow> last (os_trace c') = Kill)"
proof -
  obtain r1 c1 where t: "initialize_try py spawned c = (r1, c1)"
    by (cases "initialize_try py spawned c")
  note k = initialize_try_keeps [OF t]
  from assms t obtain e1 where r1: "r1 = Raises e1"
    by (cases r1) (auto simp: initialize_def)
  show ?thesis
  proof (cases "process c1")
    case None
    with assms t r1 k show ?thesis by (auto simp: initialize_def)
  next
    case (Some p1)
    with assms t r1 have "c' = c1\<lparr>process := None, os_trace := os_trace c1 @ [Kill]\<rparr>"
      by (auto simp: initialize_def)
    then show ?thesis by simp
  qed
qed

lemma cleanup_keeps:
  "fst (cleanup c) = Returns () \<and> process (snd (cleanup c)) = None \<and>
   rpc_id_counter (snd (cleanup c)) = rpc_id_counter c"
  by (simp add: cleanup_def Let_def split: option.splits)

lemma ex_initialize_error:
  \<open>initialize example_python
      (Some \<lparr>inbound = [Line ''{"id":1,"error":{"message":"bad version"}}''],
             stdin_broken = False, on_terminate = ExitsOnTerminate\<rparr>)
      (new_client ''server'' ''assistant'' ''1.0'') =
    (Raises (InitFailed (InitError (JObj [(''message'', JStr ''bad version'')]))),
     (new_client ''server'' ''assistant'' ''1.0'')
       \<lparr>os_trace := Spawn # map Write (init_messages (new_client ''server'' ''assistant'' ''1.0'')) @ [Kill]\<rparr>)\<close>
  by (simp add: initialize_def initialize_try_def new_client_def init_messages_def
      send_message_def wait_tools.simps [of _ 0] init_max_attempts_def read_json_line_def
      example_python_def example_lines_def strip_def is_space_def has_key_def Let_def)

section \<open>Independence of the client's past\<close>

lemma read_json_line_indep:
  assumes "process c = process d"
  shows "fst (read_json_line py c) = fst (read_json_line py d) \<and>
         process (snd (read_json_line py c)) = process (snd (read_json_line py d))"
  using assms
  by (auto simp: read_json_line_def Let_def
      split: option.splits list.splits read_event.splits)

lemma wait_tools_indep:
  "process c = process d \<Longrightarrow>
   fst (wait_tools py attempts c) = fst (wait_tools py attempts d) \<and>
   process (snd (wait_tools py attempts c)) = process (snd (wait_tools py attempts d))"
proof (induction py attempts c arbitrary: d rule: wait_tools.induct)
  case (1 py attempts c)
  show ?case
  proof (cases "attempts < init_max_attempts")
    case False
    then show ?thesis
      using "1.prems"
      by (simp add: wait_tools.simps [of py attempts c] wait_tools.simps [of py attempts d])
  next
    case True
    obtain r1 c1 where r: "read_json_line py c = (r1, c1)" by (cases "read_json_line py c")
    obtain r2 d1 where r': "read_json_line py d = (r2, d1)" by (cases "read_json_line py d")
    from read_json_line_indep [OF "1.prems", of py] r r'
    have e: "r2 = r1" "process c1 = process d1" by simp_all
    have rec: "fst (wait_tools py (attempts + 1) c1) = fst (wait_tools py (attempts + 1) d1) \<and>
        process (snd (wait_tools py (attempts + 1) c1)) = process (snd (wait_tools py (attempts + 1) d1))"
      if "wait_tools py attempts c = wait_tools py (attempts + 1) c1"
        and "\<exists>m. r1 = Returns m \<and> (\<not> truthy m \<or> (\<exists>kv. m = JObj kv \<and>
              \<not> (py_eq_int (msg_id kv) 1 \<and> has_key kv ''result'') \<and>
              \<not> (py_eq_int (msg_id kv) 1 \<and> has_key kv ''error'')))"
    proof -
      from that(2) obtain m where m: "r1 = Returns m" by auto
      show ?thesis
      proof (cases "truthy m")
        case False
        from "1.IH"(2) [OF True r [unfolded m, symmetric] refl False e(2)] show ?thesis .
      next
        case t: True
        with that(2) m obtain kv where kv: "m = JObj kv"
          "\<not> (py_eq_int (msg_id kv) 1 \<and> has_key kv ''result'')"
          "\<not> (py_eq_int (msg_id kv) 1 \<and> has_key kv ''error'')" by auto
        have g: "py_get m ''id'' JNull = Inr (msg_id kv)" using kv(1) by (simp add: msg_id_def)
        from "1.IH"(1) [OF True r [unfolded m, symmetric] refl t kv(1) g kv(2,3) e(2)]
        show ?thesis .
      qed
    qed
    show ?thesis
    proof (cases r1)
      case (Returns m)
      show ?thesis
      proof (cases "truthy m")
        case False
        have "wait_tools py attempts c = wait_tools py (attempts + 1) c1"
          "wait_tools py attempts d = wait_tools py (attempts + 1) d1"
          using True r r' e Returns False
          by (simp_all add: wait_tools.simps [of py attempts c] wait_tools.simps [of py attempts d])
        with rec Returns False show ?thesis by auto
      next
        case t: True
        show ?thesis
        proof (cases m)
          case (JObj kv)
          show ?thesis
          proof (cases "(py_eq_int (msg_id kv) 1 \<and> has_key kv ''result'') \<or>
                        (py_eq_int (msg_id kv) 1 \<and> has_key kv ''error'')")
            case True
            then show ?thesis
              using \<open>attempts < init_max_attempts\<close> r r' e Returns t JObj
              by (auto simp: wait_tools.simps [of py attempts c] wait_tools.simps [of py attempts d]
                  msg_id_def split: sum.splits)
          next
            case False
            have "wait_tools py attempts c = wait_tools py (attempts + 1) c1"
              "wait_tools py attempts d = wait_tools py (attempts + 1) d1"
              using True r r' e Returns t JObj False
              by (auto simp: wait_tools.simps [of py attempts c] wait_tools.simps [of py attempts d]
                  msg_id_def)
            with rec Returns t JObj False show ?thesis by auto
          qed
        qed (use True r r' e Returns t in
              \<open>simp_all add: wait_tools.simps [of py attempts c] wait_tools.simps [of py attempts d]\<close>)
      qed
    qed (use True r r' e in
          \<open>simp_all add: wait_tools.simps [of py attempts c] wait_tools.simps [of py attempts d]\<close>)
  qed
qed

lemma send_all_result:
  "fst (send_all c ms) =
     (if ms = [] then None
      else (case process c of
              None \<Rightarrow> Some ProcessNotRunning
            | Some p \<Rightarrow> if stdin_broken p then Some BrokenPipeError else None)) \<and>
   process (snd (send_all c ms)) = process c"
proof (induction ms arbitrary: c)
  case Nil
  show ?case by simp
next
  case (Cons m ms)
  show ?case
  proof (cases "send_message c m")
    case (Inl e)
    then show ?thesis by (auto simp: send_message_def split: option.splits if_splits)
  next
    case (Inr c1)
    from send_message_keeps [OF Inr] have p: "process c1 = process c" by simp
    from Inr have "process c \<noteq> None \<and> (\<forall>p. process c = Some p \<longrightarrow> \<not> stdin_broken p)"
      by (auto simp: send_message_def split: option.splits if_splits)
    with Cons.IH [of c1] Inr p show ?thesis by (auto split: option.splits)
  qed
qed

lemma init_messages_not_Nil: "init_messages c \<noteq> []"
  by (simp add: init_messages_def)

lemma initialize_try_indep:
  "fst (initialize_try py (Some p) c) = fst (initialize_try py (Some p) d) \<and>
   process (snd (initialize_try py (Some p) c)) = process (snd (initialize_try py (Some p) d))"
proof -
  let ?c1 = "c\<lparr>process := Some p, os_trace := os_trace c @ [Spawn]\<rparr>"
  let ?d1 = "d\<lparr>process := Some p, os_trace := os_trace d @ [Spawn]\<rparr>"
  obtain e c2 where sc: "send_all ?c1 (init_messages ?c1) = (e, c2)"
    by (cases "send_all ?c1 (init_messages ?c1)")
  obtain e' d2 where sd: "send_all ?d1 (init_messages ?d1) = (e', d2)"
    by (cases "send_all ?d1 (init_messages ?d1)")
  from send_all_result [of ?c1 "init_messages ?c1"] send_all_result [of ?d1 "init_messages ?d1"] sc sd
  have e: "e' = e" "process c2 = process d2"
    by (simp_all add: init_messages_not_Nil)
  show ?thesis
  proof (cases e)
    case (Some err)
    with sc sd e show ?thesis by (simp add: initialize_try_def Let_def)
  next
    case None
    obtain r3 c3 where wc: "wait_tools py 0 c2 = (r3, c3)" by (cases "wait_tools py 0 c2")
    obtain r4 d3 where wd: "wait_tools py 0 d2 = (r4, d3)" by (cases "wait_tools py 0 d2")
    from wait_tools_indep [OF e(2), of py 0] wc wd have "r4 = r3" "process c3 = process d3"
      by simp_all
    with sc sd e None wc wd show ?thesis
      by (cases r3) (auto simp: initialize_try_def Let_def)
  qed
qed

lemma initialize_indep:
  "fst (initialize py spawned c) = fst (initialize py spawned d) \<and>
   process (snd (initialize py spawned c)) = process (snd (initialize py spawned d))"
proof (cases spawned)
  case None
  then show ?thesis
    by (simp add: initialize_def initialize_try_def split: option.splits)
next
  case (Some p)
  obtain r1 c1 where tc: "initialize_try py (Some p) c = (r1, c1)"
    by (cases "initialize_try py (Some p) c")
  obtain r2 d1 where td: "initialize_try py (Some p) d = (r2, d1)"
    by (cases "initialize_try py (Some p) d")
  from initialize_try_indep [of py p c d] tc td have "r2 = r1" "process c1 = process d1"
    by simp_all
  with Some tc td show ?thesis
    by (cases r1) (auto simp: initialize_def split: option.splits)
qed

lemma ex_initialize_ok:
  \<open>fst (initialize example_python
      (Some \<lparr>inbound = [Line ''{}'', Line ''{"id":1,"result":{"tools":["t"]}}''],
             stdin_broken = False, on_terminate = ExitsOnTerminate\<rparr>)
      (new_client ''server'' ''assistant'' ''1.0'')) = Returns (JList [JStr ''t''])\<close>
  by (simp add: initialize_def initialize_try_def new_client_def init_messages_def
      send_message_def wait_tools.simps [of _ 0] wait_tools.simps [of _ "Suc 0"]
      init_max_attempts_def read_json_line_def
      example_python_def example_lines_def strip_def is_space_def has_key_def Let_def)

section \<open>Failures of the handshake\<close>

lemma read_json_line_init_skipped:
  assumes "process c = Some p" "inbound p = ev # rest" "init_skipped py ev"
  shows "\<exists>v. read_json_line py c = (Returns v, c\<lparr>process := Some (p\<lparr>inbound := rest\<rparr>)\<rparr>)
           \<and> (\<not> truthy v \<or> (\<exists>kv. v = JObj kv \<and>
                 (\<not> py_eq_int (msg_id kv) 1 \<or>
                  (\<not> has_key kv ''result'' \<and> \<not> has_key kv ''error''))))"
proof (cases ev)
  case (Line l)
  show ?thesis
  proof (cases "strip l = []")
    case True
    then show ?thesis using assms Line by (auto simp: read_json_line_def Let_def)
  next
    case False
    then have "l \<noteq> []" using strip_Nil by auto
    then show ?thesis using assms Line False
      by (auto simp: read_json_line_def Let_def split: option.splits json.splits)
  qed
next
  case ReadError
  then show ?thesis using assms by (simp add: read_json_line_def)
next
  case Blocks
  then show ?thesis using assms by simp
qed

lemma wait_tools_step:
  assumes "attempts < init_max_attempts" "process c = Some p" "inbound p = ev # rest"
    "init_skipped py ev"
  shows "wait_tools py attempts c =
         wait_tools py (Suc attempts) (c\<lparr>process := Some (p\<lparr>inbound := rest\<rparr>)\<rparr>)"
proof -
  obtain v where r: "read_json_line py c = (Returns v, c\<lparr>process := Some (p\<lparr>inbound := rest\<rparr>)\<rparr>)"
    and v: "\<not> truthy v \<or> (\<exists>kv. v = JObj kv \<and>
                 (\<not> py_eq_int (msg_id kv) 1 \<or>
                  (\<not> has_key kv ''result'' \<and> \<not> has_key kv ''error'')))"
    using read_json_line_init_skipped [OF assms(2,3,4)] by blast
  show ?thesis
    using assms(1) r v
    by (subst wait_tools.simps) (auto simp: msg_id_def)
qed

lemma wait_tools_skip:
  assumes "list_all (init_skipped py) evs" "attempts + length evs \<le> init_max_attempts"
    "process c = Some p" "inbound p = evs @ rest"
  shows "wait_tools py attempts c =
         wait_tools py (attempts + length evs) (c\<lparr>process := Some (p\<lparr>inbound := rest\<rparr>)\<rparr>)"
  using assms
proof (induction evs arbitrary: attempts c p)
  case Nil
  then have "c\<lparr>process := Some (p\<lparr>inbound := rest\<rparr>)\<rparr> = c" by simp
  then show ?case by simp
next
  case (Cons ev evs)
  let ?c = "c\<lparr>process := Some (p\<lparr>inbound := evs @ rest\<rparr>)\<rparr>"
  have "wait_tools py attempts c = wait_tools py (Suc attempts) ?c"
    using Cons.prems by (intro wait_tools_step) auto
  also have "\<dots> = wait_tools py (Suc attempts + length evs)
       (?c\<lparr>process := Some ((p\<lparr>inbound := evs @ rest\<rparr>)\<lparr>inbound := rest\<rparr>)\<rparr>)"
    using Cons.prems by (intro Cons.IH) auto
  finally show ?case by simp
qed

lemma wait_tools_error:
  assumes "attempts < init_max_attempts" "process c = Some p" "inbound p = ev # rest"
    "init_error py ev = Some err"
  shows "wait_tools py attempts c =
         (Raises (InitError err), c\<lparr>process := Some (p\<lparr>inbound := rest\<rparr>)\<rparr>)"
proof (cases ev)
  case (Line l)
  from assms(4) Line have s: "strip l \<noteq> []" by (auto split: if_splits)
  then have l: "l \<noteq> []" using strip_Nil by auto
  from assms(4) Line s obtain kv where j: "json_loads py (strip l) = Some (JObj kv)"
    and e: "py_eq_int (msg_id kv) 1" "\<not> has_key kv ''result''" "map_of kv ''error'' = Some err"
    by (auto split: option.splits json.splits if_splits)
  from e(3) have kv: "kv \<noteq> []" by auto
  have r: "read_json_line py c = (Returns (JObj kv), c\<lparr>process := Some (p\<lparr>inbound := rest\<rparr>)\<rparr>)"
    using assms(2,3) Line s l j by (simp add: read_json_line_def Let_def)
  show ?thesis using assms(1) r e kv
    by (subst wait_tools.simps) (auto simp: msg_id_def has_key_def)
next
  case ReadError
  then show ?thesis using assms by simp
next
  case Blocks
  then show ?thesis using assms by simp
qed

lemma wait_tools_exhausted:
  "init_max_attempts \<le> attempts \<Longrightarrow>
   wait_tools py attempts c = (Returns (JList [], attempts), c)"
  by (subst wait_tools.simps) simp

lemma wait_tools_eof:
  assumes "process c = Some p" "inbound p = []" "attempts \<le> init_max_attempts"
  shows "wait_tools py attempts c = (Returns (JList [], init_max_attempts), c)"
  using assms(3)
proof (induction "init_max_attempts - attempts" arbitrary: attempts)
  case 0
  then have "attempts = init_max_attempts" by simp
  then show ?case by (simp add: wait_tools_exhausted)
next
  case (Suc k)
  then have lt: "attempts < init_max_attempts" by simp
  have r: "read_json_line py c = (Returns JNull, c)"
    using assms by (simp add: read_json_line_def)
  have "wait_tools py attempts c = wait_tools py (attempts + 1) c"
    using lt r by (subst wait_tools.simps) simp
  also have "\<dots> = (Returns (JList [], init_max_attempts), c)" using Suc lt by simp
  finally show ?case .
qed

lemma send_all_ok:
  "process c = Some p \<Longrightarrow> \<not> stdin_broken p \<Longrightarrow>
   send_all c ms = (None, c\<lparr>os_trace := os_trace c @ map Write ms\<rparr>)"
proof (induction ms arbitrary: c)
  case Nil
  then show ?case by simp
next
  case (Cons m ms)
  let ?c = "c\<lparr>os_trace := os_trace c @ [Write m]\<rparr>"
  have "send_message c m = Inr ?c" using Cons.prems by (simp add: send_message_def)
  moreover have "send_all ?c ms = (None, ?c\<lparr>os_trace := os_trace ?c @ map Write ms\<rparr>)"
    using Cons.prems by (intro Cons.IH) auto
  ultimately show ?case by simp
qed

lemma initialize_try_raises:
  assumes "fst (initialize_try py spawned c) = Raises e"
  shows "fst (initialize py spawned c) = Raises (InitFailed e)"
  using assms by (cases "initialize_try py spawned c") (simp add: initialize_def)

lemma initialize_try_broken_pipe:
  assumes "stdin_broken p"
  shows "fst (initialize_try py (Some p) c) = Raises BrokenPipeError"
  using assms by (simp add: initialize_try_def Let_def init_messages_def send_message_def)

lemma initialize_try_waits:
  assumes "\<not> stdin_broken p"
  shows "initialize_try py (Some p) c =
     (case wait_tools py 0
             (c\<lparr>process := Some p,
                os_trace := os_trace c @ [Spawn] @
                  map Write (init_messages (c\<lparr>process := Some p, os_trace := os_trace c @ [Spawn]\<rparr>))\<rparr>) of
        (Returns (tools, attempts), c3) \<Rightarrow>
          if \<not> truthy tools \<and> attempts \<ge> init_max_attempts
          then (Raises ToolsListTimeout, c3)
          else (Returns tools, c3)
      | (Raises e, c3) \<Rightarrow> (Raises e, c3)
      | (Hangs, c3) \<Rightarrow> (Hangs, c3))"
proof -
  let ?c1 = "c\<lparr>process := Some p, os_trace := os_trace c @ [Spawn]\<rparr>"
  have "send_all ?c1 (init_messages ?c1) =
      (None, ?c1\<lparr>os_trace := os_trace ?c1 @ map Write (init_messages ?c1)\<rparr>)"
    using assms by (intro send_all_ok [of _ p]) auto
  then show ?thesis by (simp add: initialize_try_def Let_def)
qed

lemma initialize_try_error_envelope:
  assumes "\<not> stdin_broken p" "inbound p = evs @ ev # rest" "list_all (init_skipped py) evs"
    "length evs < init_max_attempts" "init_error py ev = Some err"
  shows "fst (initialize_try py (Some p) c) = Raises (InitError err)"
proof -
  let ?c2 = "c\<lparr>process := Some p,
                os_trace := os_trace c @ [Spawn] @
                  map Write (init_messages (c\<lparr>process := Some p, os_trace := os_trace c @ [Spawn]\<rparr>))\<rparr>"
  let ?c3 = "?c2\<lparr>process := Some (p\<lparr>inbound := ev # rest\<rparr>)\<rparr>"
  have "wait_tools py 0 ?c2 = wait_tools py (0 + length evs) ?c3"
    using assms(2,3,4) by (intro wait_tools_skip) auto
  also have "\<dots> = (Raises (InitError err),
      ?c3\<lparr>process := Some ((p\<lparr>inbound := ev # rest\<rparr>)\<lparr>inbound := rest\<rparr>)\<rparr>)"
    using assms(4,5) by (intro wait_tools_error) auto
  finally show ?thesis by (simp add: initialize_try_waits [OF assms(1)])
qed

lemma initialize_try_timeout:
  assumes "\<not> stdin_broken p" "list_all (init_skipped py) (inbound p)"
  shows "fst (initialize_try py (Some p) c) = Raises ToolsListTimeout"
proof -
  let ?c2 = "c\<lparr>process := Some p,
                os_trace := os_trace c @ [Spawn] @
                  map Write (init_messages (c\<lparr>process := Some p, os_trace := os_trace c @ [Spawn]\<rparr>))\<rparr>"
  let ?evs = "take init_max_attempts (inbound p)"
  let ?rest = "drop init_max_attempts (inbound p)"
  let ?c3 = "?c2\<lparr>process := Some (p\<lparr>inbound := ?rest\<rparr>)\<rparr>"
  have sk: "list_all (init_skipped py) ?evs"
    using assms(2) by (auto simp: list_all_iff dest: in_set_takeD)
  have "wait_tools py 0 ?c2 = wait_tools py (0 + length ?evs) ?c3"
    using sk by (intro wait_tools_skip) auto
  also have "\<exists>n. \<dots> = (Returns (JList [], n), ?c3) \<and> init_max_attempts \<le> n"
  proof (cases "init_max_attempts \<le> length (inbound p)")
    case True
    then have "wait_tools py (0 + length ?evs) ?c3 = (Returns (JList [], 0 + length ?evs), ?c3)"
      by (intro wait_tools_exhausted) simp
    with True show ?thesis by simp
  next
    case False
    then have "wait_tools py (0 + length ?evs) ?c3 = (Returns (JList [], init_max_attempts), ?c3)"
      by (intro wait_tools_eof [of _ "p\<lparr>inbound := ?rest\<rparr>"]) auto
    then show ?thesis by simp
  qed
  finally obtain n where "wait_tools py 0 ?c2 = (Returns (JList [], n), ?c3)"
    "init_max_attempts \<le> n" by auto
  then show ?thesis by (simp add: initialize_try_waits [OF assms(1)])
qed

lemma ex_init_skipped: "init_skipped example_python (Line ''{}'')"
  by (simp add: example_python_def example_lines_def strip_def is_space_def)

lemma ex_init_error:
  \<open>init_error example_python (Line ''{"id":1,"error":{"message":"bad version"}}'')
    = Some (JObj [(''message'', JStr ''bad version'')])\<close>
  by (simp add: example_python_def example_lines_def strip_def is_space_def msg_id_def
      has_key_def)

section \<open>Lifecycle\<close>

text \<open>
  C10. Whenever \<^verbatim>\<open>initialize\<close> fails, for whatever reason, the process handle is
  \<^verbatim>\<open>None\<close> afterwards; when the child process had been spawned, killing it is the last
  thing done to it; and a \<^verbatim>\<open>call_tool\<close> that follows fails the not-initialized check.
  And it does fail in each of these cases: every exception of the \<^verbatim>\<open>try\<close> block is
  raised again, wrapped; a broken pipe to the spawned child (transport failure), the
  server's error envelope for \<^verbatim>\<open>tools/list\<close> within the 20 attempts, and 20 reads that
  are all passed over (timeout) each make \<^verbatim>\<open>initialize\<close> raise.
\<close>

theorem initialize_failure_resets:
  "(\<forall>e c'. initialize py spawned c = (Raises e, c') \<longrightarrow>
      process c' = None \<and>
      (spawned \<noteq> None \<longrightarrow> last (os_trace c') = Kill) \<and>
      call_tool py c' tool_name arguments = (Raises NotInitialized, None, c')) \<and>
   (\<forall>e. fst (initialize_try py spawned c) = Raises e \<longrightarrow>
      fst (initialize py spawned c) = Raises (InitFailed e)) \<and>
   (\<forall>p. spawned = Some p \<and> stdin_broken p \<longrightarrow>
      fst (initialize py spawned c) = Raises (InitFailed BrokenPipeError)) \<and>
   (\<forall>p evs ev rest err.
      spawned = Some p \<and> \<not> stdin_broken p \<and> inbound p = evs @ ev # rest \<and>
      list_all (init_skipped py) evs \<and> length evs < init_max_attempts \<and>
      init_error py ev = Some err \<longrightarrow>
      fst (initialize py spawned c) = Raises (InitFailed (InitError err))) \<and>
   (\<forall>p. spawned = Some p \<and> \<not> stdin_broken p \<and> list_all (init_skipped py) (inbound p) \<longrightarrow>
      fst (initialize py spawned c) = Raises (InitFailed ToolsListTimeout))"
proof (intro conjI allI impI)
  fix e c'
  assume a: "initialize py spawned c = (Raises e, c')"
  from initialize_raises [OF a]
  show "process c' = None" by simp
  show "last (os_trace c') = Kill" if "spawned \<noteq> None"
    using initialize_raises [OF a] that by simp
  from initialize_raises [OF a]
  show "call_tool py c' tool_name arguments = (Raises NotInitialized, None, c')"
    by (simp add: call_tool_def)
next
  fix e
  assume "fst (initialize_try py spawned c) = Raises e"
  then show "fst (initialize py spawned c) = Raises (InitFailed e)"
    by (rule initialize_try_raises)
next
  fix p
  assume "spawned = Some p \<and> stdin_broken p"
  then show "fst (initialize py spawned c) = Raises (InitFailed BrokenPipeError)"
    using initialize_try_raises [OF initialize_try_broken_pipe] by simp
next
  fix p evs ev rest err
  assume "spawned = Some p \<and> \<not> stdin_broken p \<and> inbound p = evs @ ev # rest \<and>
      list_all (init_skipped py) evs \<and> length evs < init_max_attempts \<and>
      init_error py ev = Some err"
  then show "fst (initialize py spawned c) = Raises (InitFailed (InitError err))"
    using initialize_try_raises [OF initialize_try_error_envelope] by blast
next
  fix p
  assume "spawned = Some p \<and> \<not> stdin_broken p \<and> list_all (init_skipped py) (inbound p)"
  then show "fst (initialize py spawned c) = Raises (InitFailed ToolsListTimeout)"
    using initialize_try_raises [OF initialize_try_timeout] by blast
qed

text \<open>
  The server answers \<^verbatim>\<open>tools/list\<close> with an error envelope, at once or after an empty
  object; the server sends only an empty object; the pipe to the server is broken.
\<close>

theorem initialize_failure_resets_witness:
  \<open>initialize example_python
      (Some \<lparr>inbound = [Line ''{"id":1,"error":{"message":"bad version"}}''],
             stdin_broken = False, on_terminate = ExitsOnTerminate\<rparr>)
      (new_client ''server'' ''assistant'' ''1.0'') =
    (Raises (InitFailed (InitError (JObj [(''message'', JStr ''bad version'')]))),
     (new_client ''server'' ''assistant'' ''1.0'')
       \<lparr>os_trace := Spawn # map Write (init_messages (new_client ''server'' ''assistant'' ''1.0'')) @ [Kill]\<rparr>) \<and>
   call_tool example_python
     (snd (initialize example_python
        (Some \<lparr>inbound = [Line ''{"id":1,"error":{"message":"bad version"}}''],
               stdin_broken = False, on_terminate = ExitsOnTerminate\<rparr>)
        (new_client ''server'' ''assistant'' ''1.0''))) ''foo'' (JObj []) =
    (Raises NotInitialized, None,
     (new_client ''server'' ''assistant'' ''1.0'')
       \<lparr>os_trace := Spawn # map Write (init_messages (new_client ''server'' ''assistant'' ''1.0'')) @ [Kill]\<rparr>) \<and>
   fst (initialize example_python
      (Some \<lparr>inbound = [Line ''{}'', Line ''{"id":1,"error":{"message":"bad version"}}''],
             stdin_broken = False, on_terminate = ExitsOnTerminate\<rparr>)
      (example_client [])) =
     Raises (InitFailed (InitError (JObj [(''message'', JStr ''bad version'')]))) \<and>
   process (snd (initialize example_python
      (Some \<lparr>inbound = [Line ''{}'', Line ''{"id":1,"error":{"message":"bad version"}}''],
             stdin_broken = False, on_terminate = ExitsOnTerminate\<rparr>)
      (example_client []))) = None \<and>
   last (os_trace (snd (initialize example_python
      (Some \<lparr>inbound = [Line ''{}'', Line ''{"id":1,"error":{"message":"bad version"}}''],
             stdin_broken = False, on_terminate = ExitsOnTerminate\<rparr>)
      (example_client [])))) = Kill \<and>
   fst (initialize example_python
      (Some \<lparr>inbound = [Line ''{}''], stdin_broken = False, on_terminate = ExitsOnTerminate\<rparr>)
      (new_client ''server'' ''assistant'' ''1.0'')) = Raises (InitFailed ToolsListTimeout) \<and>
   fst (initialize example_python
      (Some \<lparr>inbound = [], stdin_broken = True, on_terminate = ExitsOnTerminate\<rparr>)
      (new_client ''server'' ''assistant'' ''1.0'')) = Raises (InitFailed BrokenPipeError)\<close>
proof -
  let ?new = "new_client ''server'' ''assistant'' ''1.0''"
  let ?err = \<open>Line ''{"id":1,"error":{"message":"bad version"}}''\<close>
  let ?p1 = "\<lparr>inbound = [?err], stdin_broken = False, on_terminate = ExitsOnTerminate\<rparr>"
  let ?p2 = "\<lparr>inbound = [Line ''{}'', ?err], stdin_broken = False, on_terminate = ExitsOnTerminate\<rparr>"
  let ?p3 = "\<lparr>inbound = [Line ''{}''], stdin_broken = False, on_terminate = ExitsOnTerminate\<rparr>"
  let ?p4 = "\<lparr>inbound = [], stdin_broken = True, on_terminate = ExitsOnTerminate\<rparr>"
  let ?c1 = "?new\<lparr>os_trace := Spawn # map Write (init_messages ?new) @ [Kill]\<rparr>"
  note t1 = initialize_failure_resets [of example_python "Some ?p1" ?new "''foo''" "JObj []"]
  note t2 = initialize_failure_resets [of example_python "Some ?p2" "example_client []" "''foo''" "JObj []"]
  note t3 = initialize_failure_resets [of example_python "Some ?p3" ?new "''foo''" "JObj []"]
  note t4 = initialize_failure_resets [of example_python "Some ?p4" ?new "''foo''" "JObj []"]
  have 1: "initialize example_python (Some ?p1) ?new =
      (Raises (InitFailed (InitError (JObj [(''message'', JStr ''bad version'')]))), ?c1)"
    by (rule ex_initialize_error)
  have 2: "call_tool example_python ?c1 ''foo'' (JObj []) = (Raises NotInitialized, None, ?c1)"
    using t1 [THEN conjunct1, rule_format, OF 1] by (elim conjE)
  have h2: "Some ?p2 = Some ?p2 \<and> \<not> stdin_broken ?p2 \<and> inbound ?p2 = [Line ''{}''] @ ?err # [] \<and>
      list_all (init_skipped example_python) [Line ''{}''] \<and>
      length [Line ''{}''] < init_max_attempts \<and>
      init_error example_python ?err = Some (JObj [(''message'', JStr ''bad version'')])"
    using ex_init_skipped ex_init_error by (simp add: init_max_attempts_def)
  have 3: "fst (initialize example_python (Some ?p2) (example_client [])) =
      Raises (InitFailed (InitError (JObj [(''message'', JStr ''bad version'')])))"
    by (rule t2 [THEN conjunct2, THEN conjunct2, THEN conjunct2, THEN conjunct1, rule_format, OF h2])
  have e: "initialize example_python (Some ?p2) (example_client []) =
      (Raises (InitFailed (InitError (JObj [(''message'', JStr ''bad version'')]))),
       snd (initialize example_python (Some ?p2) (example_client [])))"
    by (rule prod_eqI) (simp_all only: fst_conv snd_conv 3)
  note k = t2 [THEN conjunct1, rule_format, OF e]
  have 4: "process (snd (initialize example_python (Some ?p2) (example_client []))) = None"
    using k by (elim conjE)
  have 5: "last (os_trace (snd (initialize example_python (Some ?p2) (example_client [])))) = Kill"
    using k by (elim conjE) (simp only: option.distinct not_False_eq_True simp_thms)
  have h3: "Some ?p3 = Some ?p3 \<and> \<not> stdin_broken ?p3 \<and>
      list_all (init_skipped example_python) (inbound ?p3)"
    using ex_init_skipped by simp
  have 6: "fst (initialize example_python (Some ?p3) ?new) = Raises (InitFailed ToolsListTimeout)"
    by (rule t3 [THEN conjunct2, THEN conjunct2, THEN conjunct2, THEN conjunct2, rule_format, OF h3])
  have h4: "Some ?p4 = Some ?p4 \<and> stdin_broken ?p4" by simp
  have 7: "fst (initialize example_python (Some ?p4) ?new) = Raises (InitFailed BrokenPipeError)"
    by (rule t4 [THEN conjunct2, THEN conjunct2, THEN conjunct1, rule_format, OF h4])
  have c2: "call_tool example_python (snd (initialize example_python (Some ?p1) ?new)) ''foo'' (JObj [])
      = (Raises NotInitialized, None, ?c1)"
    by (simp only: 1 snd_conv 2)
  show ?thesis
    by (intro conjI) (rule 1 c2 3 4 5 6 7)+
qed

text \<open>
  C8. \<^verbatim>\<open>cleanup\<close> when no process is running changes nothing and does not raise;
  \<^verbatim>\<open>cleanup\<close> never raises; a second \<^verbatim>\<open>cleanup\<close> in a row changes nothing and does not
  raise; after any \<^verbatim>\<open>cleanup\<close> the process handle is cleared; and from there
  \<^verbatim>\<open>initialize\<close> gives what it gives on a newly constructed client with the same
  server: the same outcome and the same process handle.
\<close>

theorem cleanup_idempotent:
  "(process c = None \<longrightarrow> cleanup c = (Returns (), c)) \<and>
   fst (cleanup c) = Returns () \<and>
   cleanup (snd (cleanup c)) = (Returns (), snd (cleanup c)) \<and>
   process (snd (cleanup c)) = None \<and>
   fst (initialize py spawned (snd (cleanup c))) =
     fst (initialize py spawned (new_client (server_path c) (client_name c) (client_version c))) \<and>
   process (snd (initialize py spawned (snd (cleanup c)))) =
     process (snd (initialize py spawned
        (new_client (server_path c) (client_name c) (client_version c))))"
proof -
  have 1: "process c = None \<longrightarrow> cleanup c = (Returns (), c)"
    by (simp add: cleanup_def)
  have 2: "cleanup (snd (cleanup c)) = (Returns (), snd (cleanup c))"
    using cleanup_keeps [of c] by (simp add: cleanup_def [of "snd (cleanup c)"])
  from 1 2 cleanup_keeps [of c] initialize_indep show ?thesis by blast
qed

text \<open>
  A running client is cleaned up twice and initialized again with a server that sends
  an empty object and then the tools list.
\<close>

theorem cleanup_idempotent_witness:
  \<open>cleanup (example_client []) =
     (Returns (), (new_client ''server'' ''assistant'' ''1.0'')\<lparr>os_trace := [Terminate]\<rparr>) \<and>
   cleanup (snd (cleanup (example_client []))) = (Returns (), snd (cleanup (example_client []))) \<and>
   fst (initialize example_python
      (Some \<lparr>inbound = [Line ''{}'', Line ''{"id":1,"result":{"tools":["t"]}}''],
             stdin_broken = False, on_terminate = ExitsOnTerminate\<rparr>)
      (snd (cleanup (example_client [])))) = Returns (JList [JStr ''t''])\<close>
proof -
  have n: "new_client (server_path (example_client [])) (client_name (example_client []))
      (client_version (example_client [])) = new_client ''server'' ''assistant'' ''1.0''"
    by (simp add: example_client_def new_client_def)
  have c: "cleanup (example_client []) =
     (Returns (), (new_client ''server'' ''assistant'' ''1.0'')\<lparr>os_trace := [Terminate]\<rparr>)"
    by (simp add: cleanup_def example_client_def new_client_def)
  from cleanup_idempotent [of "example_client []" example_python
      \<open>Some \<lparr>inbound = [Line ''{}'', Line ''{"id":1,"result":{"tools":["t"]}}''],
             stdin_broken = False, on_terminate = ExitsOnTerminate\<rparr>\<close>]
  show ?thesis unfolding n ex_initialize_ok using c by simp
qed

text \<open>
  C7. In every client state without a process handle, \<^verbatim>\<open>call_tool\<close> raises the
  not-initialized error and leaves the client as it was: no identifier is allocated and
  nothing is written. A newly constructed client, a client after \<^verbatim>\<open>cleanup\<close> and a client
  after a failed \<^verbatim>\<open>initialize\<close> are such states.
\<close>

theorem call_tool_not_initialized:
  "(process c = None \<longrightarrow>
      call_tool py c tool_name arguments = (Raises NotInitialized, None, c)) \<and>
   call_tool py (new_client path name version) tool_name arguments =
     (Raises NotInitialized, None, new_client path name version) \<and>
   call_tool py (snd (cleanup c)) tool_name arguments =
     (Raises NotInitialized, None, snd (cleanup c)) \<and>
   (\<forall>e c'. initialize py spawned c = (Raises e, c') \<longrightarrow>
      call_tool py c' tool_name arguments = (Raises NotInitialized, None, c'))"
proof -
  have n: "call_tool py d tool_name arguments = (Raises NotInitialized, None, d)"
    if "process d = None" for d
    using that by (simp add: call_tool_def)
  have "process (new_client path name version) = None" by (simp add: new_client_def)
  moreover have "process (snd (cleanup c)) = None" using cleanup_keeps [of c] by simp
  ultimately show ?thesis using n initialize_raises by blast
qed

text \<open>A new client, and a running client after \<^verbatim>\<open>cleanup\<close>.\<close>

theorem call_tool_not_initialized_witness:
  "call_tool example_python (new_client ''server'' ''assistant'' ''1.0'') ''foo'' (JObj [])
     = (Raises NotInitialized, None, new_client ''server'' ''assistant'' ''1.0'') \<and>
   call_tool example_python (snd (cleanup (example_client []))) ''foo'' (JObj [])
     = (Raises NotInitialized, None, snd (cleanup (example_client [])))"
  using call_tool_not_initialized [of "example_client []" example_python "''foo''" "JObj []"
      "''server''" "''assistant''" "''1.0''"]
  by simp

section \<open>Identifier allocation\<close>

lemma allocated_ids_above:
  "sorted_wrt (<) (allocated_ids py c ops) \<and>
   (\<forall>i \<in> set (allocated_ids py c ops). rpc_id_counter c < i)"
proof (induction ops arbitrary: c)
  case Nil
  show ?case by simp
next
  case (Cons op ops)
  show ?case
  proof (cases op)
    case (Initialize spawned)
    obtain r c' where i: "initialize py spawned c = (r, c')"
      by (cases "initialize py spawned c")
    from initialize_keeps [OF i] Cons.IH [of c'] i Initialize show ?thesis
      by (cases r) auto
  next
    case (CallTool tool_name arguments)
    obtain r i c' where ct: "call_tool py c tool_name arguments = (r, i, c')"
      by (cases "call_tool py c tool_name arguments")
    note k = call_tool_counter [OF ct]
    show ?thesis
    proof (cases "process c")
      case None
      with k have "i = None" "c' = c" by simp_all
      with Cons.IH [of c] ct CallTool show ?thesis by auto
    next
      case (Some p)
      with k have "i = Some (rpc_id_counter c + 1)" "rpc_id_counter c' = rpc_id_counter c + 1"
        by simp_all
      with Cons.IH [of c'] ct CallTool show ?thesis by (auto simp: sorted_wrt_append)
    qed
  next
    case Cleanup
    obtain r c' where cl: "cleanup c = (r, c')" by (cases "cleanup c")
    from cleanup_keeps [of c] cl have "r = Returns ()" "rpc_id_counter c' = rpc_id_counter c"
      by simp_all
    with Cons.IH [of c'] cl Cleanup show ?thesis by auto
  next
    case (Server f)
    with Cons.IH [of "c\<lparr>process := map_option f (process c)\<rparr>"] show ?thesis by simp
  qed
qed

lemma ex_allocated_ids:
  "allocated_ids example_python (new_client ''server'' ''assistant'' ''1.0'') example_life
     = [101, 102, 103, 104]"
  by code_simp

text \<open>
  C2. Over the whole life of one client object, whatever its \<^verbatim>\<open>call_tool\<close> invocations
  do (return, raise, time out or hang) and whatever happens in between, the
  identifiers they allocate are strictly increasing in invocation order, pairwise
  distinct, at least 101, and never 0 or 1. An invocation on a client with a process
  handle always allocates the next identifier.
\<close>

theorem allocated_ids_distinct_increasing:
  "sorted_wrt (<) (allocated_ids py (new_client path name version) ops) \<and>
   distinct (allocated_ids py (new_client path name version) ops) \<and>
   list_all (\<lambda>i. 101 \<le> i) (allocated_ids py (new_client path name version) ops) \<and>
   0 \<notin> set (allocated_ids py (new_client path name version) ops) \<and>
   1 \<notin> set (allocated_ids py (new_client path name version) ops) \<and>
   (\<forall>c tool_name arguments. process c \<noteq> None \<longrightarrow>
      fst (snd (call_tool py c tool_name arguments)) = Some (rpc_id_counter c + 1))"
proof -
  let ?ids = "allocated_ids py (new_client path name version) ops"
  from allocated_ids_above [of py "new_client path name version" ops]
  have s: "sorted_wrt (<) ?ids" and a: "\<forall>i \<in> set ?ids. 100 < i"
    by (simp_all add: new_client_def)
  from s have d: "distinct ?ids" by (simp add: strict_sorted_iff)
  have l: "list_all (\<lambda>i. 101 \<le> i) ?ids" using a by (auto simp: list_all_iff)
  have z: "0 \<notin> set ?ids" "1 \<notin> set ?ids" using a by auto
  have c: "fst (snd (call_tool py c tool_name arguments)) = Some (rpc_id_counter c + 1)"
    if "process c \<noteq> None" for c tool_name arguments
    using call_tool_counter [of py c tool_name arguments] that
    by (cases "call_tool py c tool_name arguments") auto
  from s d l z c show ?thesis by blast
qed

text \<open>
  The example life: the call before initialization allocates nothing; the call that
  returns, the one that times out, the one that cannot send and the one that hangs
  allocate 101 to 104; the call after the hanging one never starts.
\<close>

theorem allocated_ids_distinct_increasing_witness:
  "allocated_ids example_python (new_client ''server'' ''assistant'' ''1.0'') example_life
     = [101, 102, 103, 104] \<and>
   sorted_wrt (<) (allocated_ids example_python (new_client ''server'' ''assistant'' ''1.0'')
     example_life) \<and>
   distinct (allocated_ids example_python (new_client ''server'' ''assistant'' ''1.0'')
     example_life) \<and>
   fst (snd (call_tool example_python (example_client []) ''foo'' (JObj []))) = Some 101"
proof -
  have p: "process (example_client []) \<noteq> None" "rpc_id_counter (example_client []) + 1 = 101"
    by (simp_all add: example_client_def new_client_def)
  from allocated_ids_distinct_increasing [of example_python "''server''" "''assistant''" "''1.0''"
      example_life]
  have "sorted_wrt (<) (allocated_ids example_python (new_client ''server'' ''assistant'' ''1.0'')
          example_life)"
    and "distinct (allocated_ids example_python (new_client ''server'' ''assistant'' ''1.0'')
          example_life)"
    and "fst (snd (call_tool example_python (example_client []) ''foo'' (JObj [])))
          = Some (rpc_id_counter (example_client []) + 1)"
    using p(1) by blast+
  with ex_allocated_ids p(2) show ?thesis by (simp only: simp_thms)
qed

end
